theory Spec2Isabelle
  imports
    Complex_Main
    "HOL-Library.Word"
    "HOL-Library.Signed_Division"
    "HOL-Library.Char_ord"
    "HOL-Library.List_Lexorder"
begin

section \<open>Package board: positions, symmetry table, transformation of positions\<close>

text \<open>
  A board state is a Go string of 9 bytes over \<open>X\<close>, \<open>O\<close> and \<open>_\<close>; here a \<open>string\<close>
  (a list of 8-bit characters). Positions and table indices are Go \<open>int\<close>s on which the
  code performs no arithmetic; they are modelled as \<open>int\<close>. Bead counts and the
  statistics counters are Go \<open>int\<close>s that the code adds to and subtracts from; they are
  64-bit words (\<open>go_int\<close>), compared as signed numbers, so that \<open>+\<close> and \<open>-\<close> wrap
  as they do on a 64-bit platform.

  An index expression \<open>s[i]\<close> out of range is a run-time panic in Go; \<open>index\<close> returns
  \<open>None\<close> there, and every function that can reach such an expression returns an
  option, \<open>None\<close> standing for the panic.
\<close>

type_synonym go_int = "64 word"

definition index :: "'a list \<Rightarrow> int \<Rightarrow> 'a option" where
  "index xs i = (if 0 \<le> i \<and> i < int (length xs) then Some (xs ! nat i) else None)"

datatype Player = PlayerX | PlayerO | PlayerNone

datatype GameResult = ResultWin | ResultLoss | ResultDraw | ResultInProgress

definition Other :: "Player \<Rightarrow> Player" where
  "Other p = (if p = PlayerX then PlayerO else PlayerX)"

definition WinningLines :: "int list list" where
  "WinningLines =
    [[0, 1, 2], [3, 4, 5], [6, 7, 8],
     [0, 3, 6], [1, 4, 7], [2, 5, 8],
     [0, 4, 8], [2, 4, 6]]"

definition Transformations :: "int list list" where
  "Transformations =
    [[0, 1, 2, 3, 4, 5, 6, 7, 8],
     [6, 3, 0, 7, 4, 1, 8, 5, 2],
     [8, 7, 6, 5, 4, 3, 2, 1, 0],
     [2, 5, 8, 1, 4, 7, 0, 3, 6],
     [2, 1, 0, 5, 4, 3, 8, 7, 6],
     [6, 7, 8, 3, 4, 5, 0, 1, 2],
     [0, 3, 6, 1, 4, 7, 2, 5, 8],
     [8, 5, 2, 7, 4, 1, 6, 3, 0]]"

definition EmptyBoard :: string where
  "EmptyBoard = ''_________''"

text \<open>
  \<open>inverseTransform\<close>: the range loop over the chosen row returns the first index whose
  entry equals the position, and the position itself when there is none.
\<close>

fun inverseTransform_loop :: "int list \<Rightarrow> int \<Rightarrow> int \<Rightarrow> int option" where
  "inverseTransform_loop [] origPos position = None"
| "inverseTransform_loop (normPos # rest) origPos position =
     (if normPos = position then Some origPos
      else inverseTransform_loop rest (origPos + 1) position)"

definition inverseTransform :: "int \<Rightarrow> int \<Rightarrow> int option" where
  "inverseTransform position transformIdx =
     (case index Transformations transformIdx of
        None \<Rightarrow> None
      | Some transform \<Rightarrow>
          (case inverseTransform_loop transform 0 position of
             Some origPos \<Rightarrow> Some origPos
           | None \<Rightarrow> Some position))"

definition TransformPosition :: "int \<Rightarrow> int \<Rightarrow> int option" where
  "TransformPosition position transformIdx =
     (case index Transformations transformIdx of
        None \<Rightarrow> None
      | Some transform \<Rightarrow> index transform position)"

definition InverseTransformPosition :: "int \<Rightarrow> int \<Rightarrow> int option" where
  "InverseTransformPosition position transformIdx = inverseTransform position transformIdx"

section \<open>Package menace: matchboxes\<close>

text \<open>
  A Go map is a partial function. \<open>Beads\<close> maps a position to its bead count.
  The methods mutate the matchbox behind the receiver pointer; here each returns the
  matchbox after the call.
\<close>

record Matchbox =
  BoardState :: string
  Beads :: "int \<rightharpoonup> go_int"
  TimesUsed :: go_int

fun NewMatchbox_loop :: "int list \<Rightarrow> go_int \<Rightarrow> (int \<rightharpoonup> go_int) \<Rightarrow> (int \<rightharpoonup> go_int)" where
  "NewMatchbox_loop [] initialBeads beads = beads"
| "NewMatchbox_loop (pos # rest) initialBeads beads =
     NewMatchbox_loop rest initialBeads (beads(pos \<mapsto> initialBeads))"

definition NewMatchbox :: "string \<Rightarrow> int list \<Rightarrow> go_int \<Rightarrow> Matchbox" where
  "NewMatchbox boardState validMoves initialBeads =
     \<lparr>BoardState = boardState,
      Beads = NewMatchbox_loop validMoves initialBeads Map.empty,
      TimesUsed = 0\<rparr>"

definition AddBeads :: "Matchbox \<Rightarrow> int \<Rightarrow> go_int \<Rightarrow> Matchbox" where
  "AddBeads m position count =
     (case Beads m position of
        Some current \<Rightarrow> m\<lparr>Beads := (Beads m)(position \<mapsto> current + count)\<rparr>
      | None \<Rightarrow> m)"

definition RemoveBeads :: "Matchbox \<Rightarrow> int \<Rightarrow> go_int \<Rightarrow> go_int \<Rightarrow> Matchbox" where
  "RemoveBeads m position count minBeads =
     (case Beads m position of
        Some current \<Rightarrow>
          (let newCount = current - count;
               newCount = (if newCount <s minBeads then minBeads else newCount)
           in m\<lparr>Beads := (Beads m)(position \<mapsto> newCount)\<rparr>)
      | None \<Rightarrow> m)"

text \<open>
  A sequence of calls of \<open>AddBeads\<close> and \<open>RemoveBeads\<close> on one matchbox, every
  \<open>RemoveBeads\<close> with the same floor. \<open>adds_in_range\<close> says that no sum computed by
  \<open>AddBeads\<close> along the sequence exceeds the largest \<open>int\<close>.
\<close>

datatype bead_op = OpAddBeads int go_int | OpRemoveBeads int go_int

fun delta :: "bead_op \<Rightarrow> go_int" where
  "delta (OpAddBeads position count) = count"
| "delta (OpRemoveBeads position count) = count"

fun apply_op :: "go_int \<Rightarrow> Matchbox \<Rightarrow> bead_op \<Rightarrow> Matchbox" where
  "apply_op minBeads m (OpAddBeads position count) = AddBeads m position count"
| "apply_op minBeads m (OpRemoveBeads position count) = RemoveBeads m position count minBeads"

fun apply_ops :: "go_int \<Rightarrow> Matchbox \<Rightarrow> bead_op list \<Rightarrow> Matchbox" where
  "apply_ops minBeads m [] = m"
| "apply_ops minBeads m (x # xs) = apply_ops minBeads (apply_op minBeads m x) xs"

fun add_in_range :: "Matchbox \<Rightarrow> bead_op \<Rightarrow> bool" where
  "add_in_range m (OpAddBeads position count) =
     (case Beads m position of
        Some current \<Rightarrow> sint current + sint count < 2 ^ 63
      | None \<Rightarrow> True)"
| "add_in_range m (OpRemoveBeads position count) = True"

fun adds_in_range :: "go_int \<Rightarrow> Matchbox \<Rightarrow> bead_op list \<Rightarrow> bool" where
  "adds_in_range minBeads m [] = True"
| "adds_in_range minBeads m (x # xs) =
     (add_in_range m x \<and> adds_in_range minBeads (apply_op minBeads m x) xs)"

definition floor_holds :: "go_int \<Rightarrow> Matchbox \<Rightarrow> bool" where
  "floor_holds minBeads m = (\<forall>position count. Beads m position = Some count \<longrightarrow> minBeads \<le>s count)"

section \<open>Package board: the board and its canonical form\<close>

text \<open>
  A \<open>Board\<close> holds its state in a private field; \<open>New\<close> (and \<open>NewEmpty\<close>,
  \<open>MakeMove\<close>) are the only ways to build one. The range loops of the source walk
  the string rune by rune; a board state is ASCII, so a rune is a byte.
\<close>

record Board =
  state :: string

datatype board_error =
    ErrNot9Characters
  | ErrBadCharacter
  | ErrPositionRange
  | ErrOccupied

definition New :: "string \<Rightarrow> board_error + Board" where
  "New s =
     (if length s \<noteq> 9 then Inl ErrNot9Characters
      else if \<exists>c\<in>set s. c \<noteq> CHR ''X'' \<and> c \<noteq> CHR ''O'' \<and> c \<noteq> CHR ''_'' then Inl ErrBadCharacter
      else Inr \<lparr>state = s\<rparr>)"

definition NewEmpty :: Board where
  "NewEmpty = \<lparr>state = EmptyBoard\<rparr>"

fun GetEmptyPositions_loop :: "string \<Rightarrow> int \<Rightarrow> int list" where
  "GetEmptyPositions_loop [] i = []"
| "GetEmptyPositions_loop (c # rest) i =
     (if c = CHR ''_'' then i # GetEmptyPositions_loop rest (i + 1)
      else GetEmptyPositions_loop rest (i + 1))"

definition GetEmptyPositions :: "Board \<Rightarrow> int list" where
  "GetEmptyPositions b = GetEmptyPositions_loop (state b) 0"

text \<open>
  \<open>applyTransform\<close> fills a fresh slice of 9 zero bytes: entry \<open>newPos\<close> receives the
  byte of the state at \<open>transform[newPos]\<close>.
\<close>

fun applyTransform_loop :: "string \<Rightarrow> int list \<Rightarrow> int \<Rightarrow> string \<Rightarrow> string option" where
  "applyTransform_loop s [] newPos result = Some result"
| "applyTransform_loop s (oldPos # rest) newPos result =
     (case index s oldPos of
        None \<Rightarrow> None
      | Some c \<Rightarrow>
          (if 0 \<le> newPos \<and> newPos < int (length result)
           then applyTransform_loop s rest (newPos + 1) (result[nat newPos := c])
           else None))"

definition applyTransform :: "string \<Rightarrow> int list \<Rightarrow> string option" where
  "applyTransform s transform = applyTransform_loop s transform 0 (replicate 9 (CHR 0x00))"

text \<open>
  \<open>sort.Slice\<close> of the Go library (Go 1.21, which the repository asks for): on a slice
  of at most 12 elements it runs \<open>insertionSort_func(data, 0, n)\<close>,
  \<^verbatim>\<open>for i := a + 1; i < b; i++ {
    for j := i; j > a && data.Less(j, j-1); j-- { data.Swap(j, j-1) } }\<close>
  Longer slices take another path of the library, which is not modelled: \<open>Normalize\<close>
  sorts 8 elements.
\<close>

fun insertionSort_inner :: "('a \<Rightarrow> 'a \<Rightarrow> bool) \<Rightarrow> 'a list \<Rightarrow> nat \<Rightarrow> nat \<Rightarrow> 'a list" where
  "insertionSort_inner lessf data a 0 = data"
| "insertionSort_inner lessf data a (Suc j) =
     (if Suc j > a \<and> lessf (data ! Suc j) (data ! j)
      then insertionSort_inner lessf (data[Suc j := data ! j, j := data ! Suc j]) a j
      else data)"

definition insertionSort_func :: "('a \<Rightarrow> 'a \<Rightarrow> bool) \<Rightarrow> 'a list \<Rightarrow> nat \<Rightarrow> nat \<Rightarrow> 'a list" where
  "insertionSort_func lessf data a b =
     foldl (\<lambda>data i. insertionSort_inner lessf data a i) data [a + 1 ..< b]"

definition sort_Slice :: "'a list \<Rightarrow> ('a \<Rightarrow> 'a \<Rightarrow> bool) \<Rightarrow> 'a list" where
  "sort_Slice x lessf = insertionSort_func lessf x 0 (length x)"

fun Normalize_variants :: "string \<Rightarrow> int list list \<Rightarrow> int \<Rightarrow> (string \<times> int) list option" where
  "Normalize_variants s [] i = Some []"
| "Normalize_variants s (transform # rest) i =
     (case applyTransform s transform of
        None \<Rightarrow> None
      | Some v \<Rightarrow>
          (case Normalize_variants s rest (i + 1) of
             None \<Rightarrow> None
           | Some vs \<Rightarrow> Some ((v, i) # vs)))"

definition Normalize :: "Board \<Rightarrow> (string \<times> int) option" where
  "Normalize b =
     (case Normalize_variants (state b) Transformations 0 of
        None \<Rightarrow> None
      | Some variants \<Rightarrow>
          (case sort_Slice variants (\<lambda>v w. fst v < fst w) of
             [] \<Rightarrow> None
           | v # _ \<Rightarrow> Some v))"

definition NormalizeState :: "string \<Rightarrow> board_error + (string \<times> int) option" where
  "NormalizeState s = (case New s of Inl e \<Rightarrow> Inl e | Inr board \<Rightarrow> Inr (Normalize board))"

text \<open>
  The element that a scan from the left keeps when it replaces its choice only by a
  strictly smaller key: the first of the elements with the least key.
\<close>

definition earlier_min :: "('k::linorder \<times> 'i) \<Rightarrow> ('k \<times> 'i) \<Rightarrow> ('k \<times> 'i)" where
  "earlier_min best v = (if fst v < fst best then v else best)"

section \<open>Package menace: the agent\<close>

text \<open>
  \<open>DrawBead\<close> lays the beads out in the order in which the range loop visits the keys
  of the map, an order that Go leaves unspecified and that may differ from one loop to
  the next; \<open>order\<close> is that order. \<open>r\<close> is the random number behind
  \<open>rand.Intn(n)\<close>, which answers in \<open>[0, n)\<close>: the bead drawn is the one at
  \<open>r mod n\<close>.
\<close>

definition DrawBead :: "Matchbox \<Rightarrow> int list \<Rightarrow> nat \<Rightarrow> int" where
  "DrawBead m order r =
     (if dom (Beads m) = {} then - 1
      else
        (let weightedPositions =
               concat (map (\<lambda>pos. case Beads m pos of
                                     Some count \<Rightarrow> replicate (nat (sint count)) pos
                                   | None \<Rightarrow> []) order)
         in if weightedPositions = [] then - 1
            else weightedPositions ! (r mod length weightedPositions)))"

record MoveRecord =
  BoardState :: string
  Position :: int
  TransformIdx :: int

text \<open>
  In a snapshot \<open>WinRate\<close> is the exact quotient; the source rounds it to a
  \<open>float64\<close>.
\<close>

record HistorySnapshot =
  Games :: go_int
  TotalBeads :: go_int
  MatchboxCount :: go_int
  Wins :: go_int
  Losses :: go_int
  Draws :: go_int
  WinRate :: real

text \<open>
  The agent. \<open>Matchboxes\<close> maps a canonical state to a pointer to its matchbox; each
  matchbox is reachable through its own key only, so the map holds the matchboxes
  themselves, and a missing key stands for the nil pointer that a lookup answers.
  The mutex is left out: the calls are modelled one after the other.
\<close>

record Menace =
  Matchboxes :: "string \<rightharpoonup> Matchbox"
  Player :: Player
  MoveHistory :: "MoveRecord list"
  History :: "HistorySnapshot list"
  InitialBeads :: go_int
  WinReward :: go_int
  DrawReward :: go_int
  LossPenalty :: go_int
  MinBeads :: go_int
  GamesPlayed :: go_int
  Wins :: go_int
  Losses :: go_int
  Draws :: go_int

definition NewMenace :: "Player \<Rightarrow> Menace" where
  "NewMenace player =
     \<lparr>Matchboxes = Map.empty,
      Player = player,
      MoveHistory = [],
      History = [],
      InitialBeads = 3,
      WinReward = 3,
      DrawReward = 1,
      LossPenalty = 1,
      MinBeads = 1,
      GamesPlayed = 0,
      Wins = 0,
      Losses = 0,
      Draws = 0\<rparr>"

definition GetOrCreateMatchbox :: "Menace \<Rightarrow> string \<Rightarrow> int list \<Rightarrow> Matchbox \<times> Menace" where
  "GetOrCreateMatchbox m normalizedState validMoves =
     (case Matchboxes m normalizedState of
        Some mb \<Rightarrow> (mb, m)
      | None \<Rightarrow>
          (let mb = NewMatchbox normalizedState validMoves (InitialBeads m)
           in (mb, m\<lparr>Matchboxes := (Matchboxes m)(normalizedState \<mapsto> mb)\<rparr>)))"

fun GetMove_moves :: "int list \<Rightarrow> int \<Rightarrow> int list option" where
  "GetMove_moves [] transformIdx = Some []"
| "GetMove_moves (pos # rest) transformIdx =
     (case TransformPosition pos transformIdx of
        None \<Rightarrow> None
      | Some q \<Rightarrow>
          (case GetMove_moves rest transformIdx of
             None \<Rightarrow> None
           | Some qs \<Rightarrow> Some (q # qs)))"

definition GetMove :: "Menace \<Rightarrow> Board \<Rightarrow> int list \<Rightarrow> nat \<Rightarrow> (int \<times> Menace) option" where
  "GetMove m b order r =
     (case Normalize b of
        None \<Rightarrow> None
      | Some (normalizedState, transformIdx) \<Rightarrow>
          (case GetMove_moves (GetEmptyPositions b) transformIdx of
             None \<Rightarrow> None
           | Some normalizedMoves \<Rightarrow>
               (let (matchbox, m) = GetOrCreateMatchbox m normalizedState normalizedMoves;
                    matchbox = matchbox\<lparr>TimesUsed := TimesUsed matchbox + 1\<rparr>;
                    m = m\<lparr>Matchboxes := (Matchboxes m)(normalizedState \<mapsto> matchbox)\<rparr>;
                    normalizedPos = DrawBead matchbox order r
                in (case InverseTransformPosition normalizedPos transformIdx of
                      None \<Rightarrow> None
                    | Some originalPos \<Rightarrow>
                        Some (originalPos,
                              m\<lparr>MoveHistory := MoveHistory m @
                                   [\<lparr>BoardState = normalizedState,
                                     Position = normalizedPos,
                                     TransformIdx = transformIdx\<rparr>]\<rparr>)))))"

definition GetTotalBeads :: "Matchbox \<Rightarrow> go_int" where
  "GetTotalBeads m = (\<Sum>pos\<in>dom (Beads m). the (Beads m pos))"

definition getTotalBeadsUnsafe :: "Menace \<Rightarrow> go_int" where
  "getTotalBeadsUnsafe m = (\<Sum>s\<in>dom (Matchboxes m). GetTotalBeads (the (Matchboxes m s)))"

definition recordHistorySnapshot :: "Menace \<Rightarrow> Menace" where
  "recordHistorySnapshot m =
     (if sint (GamesPlayed m) smod 10 \<noteq> 0 then m
      else
        (let winRate = (if 0 <s GamesPlayed m
                        then real_of_int (sint (Menace.Wins m)) / real_of_int (sint (GamesPlayed m))
                        else 0)
         in m\<lparr>History := History m @
              [\<lparr>Games = GamesPlayed m,
                TotalBeads = getTotalBeadsUnsafe m,
                MatchboxCount = word_of_nat (card (dom (Matchboxes m))),
                Wins = Menace.Wins m,
                Losses = Menace.Losses m,
                Draws = Menace.Draws m,
                WinRate = winRate\<rparr>]\<rparr>))"

text \<open>
  \<open>Learn\<close>. One round of its loop looks the matchbox of a traced move up and, when
  there is one, mutates it through the pointer.
\<close>

definition Learn_move :: "Menace \<Rightarrow> GameResult \<Rightarrow> (string \<rightharpoonup> Matchbox) \<Rightarrow> MoveRecord \<Rightarrow> (string \<rightharpoonup> Matchbox)" where
  "Learn_move m result boxes move =
     (case boxes (MoveRecord.BoardState move) of
        None \<Rightarrow> boxes
      | Some mb \<Rightarrow>
          (case result of
             ResultWin \<Rightarrow>
               boxes(MoveRecord.BoardState move \<mapsto> AddBeads mb (Position move) (WinReward m))
           | ResultDraw \<Rightarrow>
               boxes(MoveRecord.BoardState move \<mapsto> AddBeads mb (Position move) (DrawReward m))
           | ResultLoss \<Rightarrow>
               boxes(MoveRecord.BoardState move \<mapsto>
                 RemoveBeads mb (Position move) (LossPenalty m) (MinBeads m))
           | ResultInProgress \<Rightarrow> boxes))"

definition Learn :: "Menace \<Rightarrow> GameResult \<Rightarrow> Menace" where
  "Learn m result =
     (let m = m\<lparr>GamesPlayed := GamesPlayed m + 1\<rparr>;
          m = (case result of
                 ResultWin \<Rightarrow> m\<lparr>Menace.Wins := Menace.Wins m + 1\<rparr>
               | ResultLoss \<Rightarrow> m\<lparr>Menace.Losses := Menace.Losses m + 1\<rparr>
               | ResultDraw \<Rightarrow> m\<lparr>Menace.Draws := Menace.Draws m + 1\<rparr>
               | ResultInProgress \<Rightarrow> m);
          m = m\<lparr>Matchboxes := foldl (Learn_move m result) (Matchboxes m) (MoveHistory m)\<rparr>;
          m = m\<lparr>MoveHistory := []\<rparr>
      in recordHistorySnapshot m)"

definition StartNewGame :: "Menace \<Rightarrow> Menace" where
  "StartNewGame m = m\<lparr>MoveHistory := []\<rparr>"

definition Reset :: "Menace \<Rightarrow> Menace" where
  "Reset m =
     m\<lparr>Matchboxes := Map.empty, MoveHistory := [], History := [],
       GamesPlayed := 0, Menace.Wins := 0, Menace.Losses := 0, Menace.Draws := 0\<rparr>"

section \<open>Traces, episodes and runs of the agent\<close>

text \<open>
  What \<open>Learn\<close> does to one bead count for one traced entry, and the number of entries
  of a trace that name a given state and move.
\<close>

definition bead_update :: "Menace \<Rightarrow> GameResult \<Rightarrow> go_int \<Rightarrow> go_int" where
  "bead_update m result current =
     (case result of
        ResultWin \<Rightarrow> current + WinReward m
      | ResultDraw \<Rightarrow> current + DrawReward m
      | ResultLoss \<Rightarrow>
          (if current - LossPenalty m <s MinBeads m then MinBeads m
           else current - LossPenalty m)
      | ResultInProgress \<Rightarrow> current)"

definition credits :: "string \<Rightarrow> int \<Rightarrow> MoveRecord list \<Rightarrow> nat" where
  "credits s p trace =
     length (filter (\<lambda>move. MoveRecord.BoardState move = s \<and> Position move = p) trace)"

text \<open>
  An episode: \<open>StartNewGame\<close> (called by \<open>NewGame\<close>), the calls of \<open>GetMove\<close> of
  the game, each with its board, the iteration order of its draw and its random
  number, and \<open>Learn\<close> with the result. \<open>win_episodes\<close> runs episodes that all end in a
  win; \<open>credited_once\<close> says that each of them runs without a panic and that the trace
  it hands to \<open>Learn\<close> names the state \<open>s\<close> and the move \<open>p\<close> exactly once.
\<close>

fun play_moves :: "Menace \<Rightarrow> (Board \<times> int list \<times> nat) list \<Rightarrow> Menace option" where
  "play_moves m [] = Some m"
| "play_moves m ((b, order, r) # rest) =
     (case GetMove m b order r of
        None \<Rightarrow> None
      | Some (pos, m') \<Rightarrow> play_moves m' rest)"

fun win_episodes :: "Menace \<Rightarrow> (Board \<times> int list \<times> nat) list list \<Rightarrow> Menace option" where
  "win_episodes m [] = Some m"
| "win_episodes m (calls # rest) =
     (case play_moves (StartNewGame m) calls of
        None \<Rightarrow> None
      | Some m' \<Rightarrow> win_episodes (Learn m' ResultWin) rest)"

fun credited_once :: "string \<Rightarrow> int \<Rightarrow> Menace \<Rightarrow> (Board \<times> int list \<times> nat) list list \<Rightarrow> bool" where
  "credited_once s p m [] = True"
| "credited_once s p m (calls # rest) =
     (case play_moves (StartNewGame m) calls of
        None \<Rightarrow> False
      | Some m' \<Rightarrow> credits s p (MoveHistory m') = 1 \<and> credited_once s p (Learn m' ResultWin) rest)"

text \<open>
  The matchbox that a call of \<open>GetMove\<close> leaves under the canonical state of its board.
\<close>

definition GetMove_matchbox :: "Menace \<Rightarrow> Board \<Rightarrow> int list \<Rightarrow> nat \<Rightarrow> Matchbox option" where
  "GetMove_matchbox m b order r =
     (case Normalize b of
        None \<Rightarrow> None
      | Some (normalizedState, transformIdx) \<Rightarrow>
          (case GetMove m b order r of
             None \<Rightarrow> None
           | Some (pos, m') \<Rightarrow> Matchboxes m' normalizedState))"

text \<open>
  A run of the agent: a sequence of calls of its methods, each \<open>GetMove\<close> with the
  iteration order and the random number of its draw. \<open>run\<close> answers with the moves
  returned and the agent at the end; \<open>final_count\<close> reads a bead count of that agent.
\<close>

datatype call = CallStartNewGame | CallGetMove Board "int list" nat | CallLearn GameResult

fun run :: "Menace \<Rightarrow> call list \<Rightarrow> (int list \<times> Menace) option" where
  "run m [] = Some ([], m)"
| "run m (CallStartNewGame # rest) = run (StartNewGame m) rest"
| "run m (CallGetMove b order r # rest) =
     (case GetMove m b order r of
        None \<Rightarrow> None
      | Some (pos, m') \<Rightarrow>
          (case run m' rest of
             None \<Rightarrow> None
           | Some (moves, m'') \<Rightarrow> Some (pos # moves, m'')))"
| "run m (CallLearn result # rest) = run (Learn m result) rest"

definition final_count :: "(int list \<times> Menace) option \<Rightarrow> string \<Rightarrow> int \<Rightarrow> go_int option" where
  "final_count res s p =
     (case res of
        None \<Rightarrow> None
      | Some (moves, m) \<Rightarrow>
          (case Matchboxes m s of
             None \<Rightarrow> None
           | Some mb \<Rightarrow> Beads mb p))"

section \<open>Package board: moves and results\<close>

text \<open>
  \<open>player[0]\<close> is the byte of a player. \<open>CheckWinner\<close> answers with
  \<open>Player(string(a))\<close>, the player of a byte: \<open>Winner p\<close> for the bytes of the three
  players, and \<open>PlayerOf a\<close> for any other byte, which a board built by \<open>New\<close> and
  \<open>MakeMove\<close> does not hold.
\<close>

datatype Winner = Winner Player | PlayerOf char

definition player_byte :: "Player \<Rightarrow> char" where
  "player_byte p = (case p of PlayerX \<Rightarrow> CHR ''X'' | PlayerO \<Rightarrow> CHR ''O'' | PlayerNone \<Rightarrow> CHR ''_'')"

definition player_of_byte :: "char \<Rightarrow> Winner" where
  "player_of_byte a =
     (if a = CHR ''X'' then Winner PlayerX
      else if a = CHR ''O'' then Winner PlayerO
      else if a = CHR ''_'' then Winner PlayerNone
      else PlayerOf a)"

definition MakeMove :: "Board \<Rightarrow> int \<Rightarrow> Player \<Rightarrow> (board_error + Board) option" where
  "MakeMove b position player =
     (if position < 0 \<or> position > 8 then Some (Inl ErrPositionRange)
      else
        (case index (state b) position of
           None \<Rightarrow> None
         | Some c \<Rightarrow>
             (if c \<noteq> CHR ''_'' then Some (Inl ErrOccupied)
              else Some (Inr \<lparr>state = (state b)[nat position := player_byte player]\<rparr>))))"

fun CheckWinner_loop :: "string \<Rightarrow> int list list \<Rightarrow> Winner option" where
  "CheckWinner_loop s [] = Some (Winner PlayerNone)"
| "CheckWinner_loop s (line # rest) =
     (case (index line 0, index line 1, index line 2) of
        (Some l0, Some l1, Some l2) \<Rightarrow>
          (case (index s l0, index s l1, index s l2) of
             (Some a, Some c, Some d) \<Rightarrow>
               (if a \<noteq> CHR ''_'' \<and> a = c \<and> c = d then Some (player_of_byte a)
                else CheckWinner_loop s rest)
           | _ \<Rightarrow> None)
      | _ \<Rightarrow> None)"

definition CheckWinner :: "Board \<Rightarrow> Winner option" where
  "CheckWinner b = CheckWinner_loop (state b) WinningLines"

definition IsFull :: "Board \<Rightarrow> bool" where
  "IsFull b = (CHR ''_'' \<notin> set (state b))"

definition IsGameOver :: "Board \<Rightarrow> bool option" where
  "IsGameOver b =
     (case CheckWinner b of
        None \<Rightarrow> None
      | Some winner \<Rightarrow> Some (winner \<noteq> Winner PlayerNone \<or> IsFull b))"

definition GetResult :: "Board \<Rightarrow> Player \<Rightarrow> GameResult option" where
  "GetResult b player =
     (case CheckWinner b of
        None \<Rightarrow> None
      | Some winner \<Rightarrow>
          Some (if winner = Winner PlayerNone
                then (if IsFull b then ResultDraw else ResultInProgress)
                else if winner = Winner player then ResultWin
                else ResultLoss))"

section \<open>Package game: sessions\<close>

text \<open>
  A session. Its pointer to the agent is the agent of the manager, which the functions
  below take and return beside the session; identifiers and clock readings come from
  outside, the identifier as a parameter, the time stamps left out.
\<close>

record Move =
  Player :: Player
  Position :: int
  BoardAfter :: string

record Game =
  ID :: string
  Board :: Board
  MenacePlayer :: Player
  CurrentTurn :: Player
  Moves :: "Move list"
  Result :: GameResult

definition NewGame :: "Menace \<Rightarrow> bool \<Rightarrow> string \<Rightarrow> Game \<times> Menace" where
  "NewGame m menacePlaysFirst uuid =
     (let menacePlayer = (if \<not> menacePlaysFirst then PlayerO else PlayerX)
      in (\<lparr>ID = uuid, Board = NewEmpty, MenacePlayer = menacePlayer, CurrentTurn = PlayerX,
           Moves = [], Result = ResultInProgress\<rparr>,
          StartNewGame m))"

definition IsOver :: "Game \<Rightarrow> bool option" where
  "IsOver g = IsGameOver (Board g)"

definition IsMenaceTurn :: "Game \<Rightarrow> bool option" where
  "IsMenaceTurn g =
     (if CurrentTurn g = MenacePlayer g then map_option Not (IsOver g) else Some False)"

definition IsOpponentTurn :: "Game \<Rightarrow> bool option" where
  "IsOpponentTurn g =
     (if CurrentTurn g \<noteq> MenacePlayer g then map_option Not (IsOver g) else Some False)"

definition Game_GetResult :: "Game \<Rightarrow> GameResult option" where
  "Game_GetResult g = GetResult (Board g) (MenacePlayer g)"

definition GetValidMoves :: "Game \<Rightarrow> int list option" where
  "GetValidMoves g =
     (case IsOver g of
        None \<Rightarrow> None
      | Some over \<Rightarrow> Some (if over then [] else GetEmptyPositions (Board g)))"

text \<open>
  The tail that \<open>MenaceMove\<close> and \<open>OpponentMove\<close> share: the new board, the move
  log, the turn, and the result once the game is over.
\<close>

definition apply_move :: "Game \<Rightarrow> Board \<Rightarrow> Player \<Rightarrow> int \<Rightarrow> Game option" where
  "apply_move g newBoard player position =
     (let g = g\<lparr>Board := newBoard\<rparr>;
          g = g\<lparr>Moves := Moves g @
                 [\<lparr>Player = player, Position = position, BoardAfter = state (Board g)\<rparr>]\<rparr>;
          g = g\<lparr>CurrentTurn := Other (CurrentTurn g)\<rparr>
      in (case IsOver g of
            None \<Rightarrow> None
          | Some over \<Rightarrow>
              (if over
               then (case Game_GetResult g of
                       None \<Rightarrow> None
                     | Some result \<Rightarrow> Some (g\<lparr>Result := result\<rparr>))
               else Some g)))"

definition MenaceMove ::
    "Game \<Rightarrow> Menace \<Rightarrow> int list \<Rightarrow> nat \<Rightarrow> ((int \<times> board_error option) \<times> Game \<times> Menace) option" where
  "MenaceMove g m order r =
     (case IsOver g of
        None \<Rightarrow> None
      | Some over \<Rightarrow>
          (if over then Some ((- 1, None), g, m)
           else
             (case IsMenaceTurn g of
                None \<Rightarrow> None
              | Some turn \<Rightarrow>
                  (if \<not> turn then Some ((- 1, None), g, m)
                   else
                     (case GetMove m (Board g) order r of
                        None \<Rightarrow> None
                      | Some (position, m) \<Rightarrow>
                          (case MakeMove (Board g) position (MenacePlayer g) of
                             None \<Rightarrow> None
                           | Some (Inl err) \<Rightarrow> Some ((- 1, Some err), g, m)
                           | Some (Inr newBoard) \<Rightarrow>
                               (case apply_move g newBoard (MenacePlayer g) position of
                                  None \<Rightarrow> None
                                | Some g \<Rightarrow> Some ((position, None), g, m))))))))"

definition OpponentMove :: "Game \<Rightarrow> int \<Rightarrow> (board_error option \<times> Game) option" where
  "OpponentMove g position =
     (case IsOver g of
        None \<Rightarrow> None
      | Some over \<Rightarrow>
          (if over then Some (None, g)
           else
             (case IsOpponentTurn g of
                None \<Rightarrow> None
              | Some turn \<Rightarrow>
                  (if \<not> turn then Some (None, g)
                   else
                     (let opponentPlayer = Other (MenacePlayer g)
                      in (case MakeMove (Board g) position opponentPlayer of
                            None \<Rightarrow> None
                          | Some (Inl err) \<Rightarrow> Some (Some err, g)
                          | Some (Inr newBoard) \<Rightarrow>
                              (case apply_move g newBoard opponentPlayer position of
                                 None \<Rightarrow> None
                               | Some g \<Rightarrow> Some (None, g))))))))"

text \<open>
  The manager. An entry of \<open>games\<close> is a pointer to a session; a session changed
  through the pointer is stored back under its identifier.
\<close>

record GameManager =
  games :: "string \<rightharpoonup> Game"
  menace :: Menace

definition NewGameManager :: "Menace \<Rightarrow> GameManager" where
  "NewGameManager m = \<lparr>games = Map.empty, menace = m\<rparr>"

definition CreateGame :: "GameManager \<Rightarrow> bool \<Rightarrow> string \<Rightarrow> Game \<times> GameManager" where
  "CreateGame gm menacePlaysFirst uuid =
     (let (game, m) = NewGame (menace gm) menacePlaysFirst uuid
      in (game, gm\<lparr>games := (games gm)(ID game \<mapsto> game), menace := m\<rparr>))"

definition GetGame :: "GameManager \<Rightarrow> string \<Rightarrow> Game option" where
  "GetGame gm ident = games gm ident"

definition FinishGame :: "GameManager \<Rightarrow> string \<Rightarrow> GameManager option" where
  "FinishGame gm ident =
     (case games gm ident of
        None \<Rightarrow> Some gm
      | Some game \<Rightarrow>
          (case IsOver game of
             None \<Rightarrow> None
           | Some over \<Rightarrow>
               (if \<not> over then Some gm
                else
                  (case Game_GetResult game of
                     None \<Rightarrow> None
                   | Some result \<Rightarrow> Some (gm\<lparr>menace := Learn (menace gm) result\<rparr>)))))"

section \<open>Package api: the move handler\<close>

text \<open>
  The handler of \<open>POST /api/game/:id/move\<close>. The handler and its manager hold the
  same agent. The request is the identifier of the session and the position of the body,
  \<open>None\<close> for a body that does not parse; the answer is the status with the reason
  of the rejection, or of the 200 response the board, the move of the agent and the
  game-over flag.
\<close>

datatype rejection =
    GameAlreadyOver \<comment> \<open>"Game is already over"\<close>
  | NotYourTurn \<comment> \<open>"It's not your turn - waiting for MENACE"\<close>
  | BindingError \<comment> \<open>the error of \<open>ShouldBindJSON\<close>\<close>
  | PositionNotAvailable \<comment> \<open>"Invalid move: position is not available"\<close>
  | MoveError board_error \<comment> \<open>the error of \<open>OpponentMove\<close>\<close>

datatype response =
    NotFound
  | BadRequest rejection
  | OK string "int option" bool

text \<open>
  The handler in four parts, from its end to its start: the end of the request (learning
  once the game is over, and the response), the reply of the agent, the move of the
  opponent, and the checks that admit the request. \<open>g\<close> is a pointer to the session
  that the manager holds, and no request removes a session; no lock is held from one
  part to the next, so the move of the opponent reads the session as it is when the move
  is made, which is the session that the checks read only when no other request came
  between.
\<close>

definition handler_MakeMove_finish ::
    "GameManager \<Rightarrow> string \<Rightarrow> Game \<Rightarrow> int option \<Rightarrow> (response \<times> GameManager) option" where
  "handler_MakeMove_finish h gameID g menaceMove =
     (case IsOver g of
        None \<Rightarrow> None
      | Some over \<Rightarrow>
          (case (if over then FinishGame h gameID else Some h) of
             None \<Rightarrow> None
           | Some h \<Rightarrow> Some (OK (state (Board g)) menaceMove over, h)))"

definition handler_MakeMove_respond ::
    "GameManager \<Rightarrow> string \<Rightarrow> Game \<Rightarrow> int list \<Rightarrow> nat \<Rightarrow> (response \<times> GameManager) option" where
  "handler_MakeMove_respond h gameID g order r =
     (case IsOver g of
        None \<Rightarrow> None
      | Some over \<Rightarrow>
          (case (if over then Some False else IsMenaceTurn g) of
             None \<Rightarrow> None
           | Some respond \<Rightarrow>
               (if respond
                then (case MenaceMove g (menace h) order r of
                        None \<Rightarrow> None
                      | Some ((pos, err), g, m) \<Rightarrow>
                          handler_MakeMove_finish
                            (h\<lparr>games := (games h)(gameID \<mapsto> g), menace := m\<rparr>) gameID g
                            (if err = None \<and> pos \<ge> 0 then Some pos else None))
                else handler_MakeMove_finish h gameID g None)))"

definition handler_MakeMove_act ::
    "GameManager \<Rightarrow> string \<Rightarrow> int \<Rightarrow> int list \<Rightarrow> nat \<Rightarrow> (response \<times> GameManager) option" where
  "handler_MakeMove_act h gameID position order r =
     (case games h gameID of
        None \<Rightarrow> None
      | Some g \<Rightarrow>
          (case OpponentMove g position of
             None \<Rightarrow> None
           | Some (Some err, g) \<Rightarrow>
               Some (BadRequest (MoveError err), h\<lparr>games := (games h)(gameID \<mapsto> g)\<rparr>)
           | Some (None, g) \<Rightarrow>
               handler_MakeMove_respond (h\<lparr>games := (games h)(gameID \<mapsto> g)\<rparr>) gameID g order r))"

text \<open>
  The checks answer with the response of a request that they turn down, or with the
  position of a request that they admit.
\<close>

definition handler_MakeMove_admit ::
    "GameManager \<Rightarrow> string \<Rightarrow> int option \<Rightarrow> (response + int) option" where
  "handler_MakeMove_admit h gameID body =
     (case GetGame h gameID of
        None \<Rightarrow> Some (Inl NotFound)
      | Some g \<Rightarrow>
          (case IsOver g of
             None \<Rightarrow> None
           | Some over \<Rightarrow>
               (if over then Some (Inl (BadRequest GameAlreadyOver))
                else
                  (case IsOpponentTurn g of
                     None \<Rightarrow> None
                   | Some turn \<Rightarrow>
                       (if \<not> turn then Some (Inl (BadRequest NotYourTurn))
                        else
                          (case body of
                             None \<Rightarrow> Some (Inl (BadRequest BindingError))
                           | Some position \<Rightarrow>
                               (if position < 0 \<or> position > 8
                                then Some (Inl (BadRequest BindingError))
                                else
                                  (case GetValidMoves g of
                                     None \<Rightarrow> None
                                   | Some validMoves \<Rightarrow>
                                       (if position \<notin> set validMoves
                                        then Some (Inl (BadRequest PositionNotAvailable))
                                        else Some (Inr position))))))))))"

definition handler_MakeMove ::
    "GameManager \<Rightarrow> string \<Rightarrow> int option \<Rightarrow> int list \<Rightarrow> nat \<Rightarrow> (response \<times> GameManager) option" where
  "handler_MakeMove h gameID body order r =
     (case handler_MakeMove_admit h gameID body of
        None \<Rightarrow> None
      | Some (Inl resp) \<Rightarrow> Some (resp, h)
      | Some (Inr position) \<Rightarrow> handler_MakeMove_act h gameID position order r)"

text \<open>
  \<open>NewHandler\<close> makes the agent and the manager of the server. The handler of
  \<open>POST /api/game/new\<close> creates the session and, if the agent plays first, lets it make
  the opening move; it answers with that move.
\<close>

definition NewHandler :: GameManager where
  "NewHandler = NewGameManager (NewMenace PlayerX)"

definition handler_NewGame ::
    "GameManager \<Rightarrow> bool \<Rightarrow> string \<Rightarrow> int list \<Rightarrow> nat \<Rightarrow> (int option \<times> GameManager) option" where
  "handler_NewGame h menacePlaysFirst uuid order r =
     (let (g, h) = CreateGame h menacePlaysFirst uuid
      in if menacePlaysFirst
         then (case MenaceMove g (menace h) order r of
                 None \<Rightarrow> None
               | Some ((pos, err), g, m) \<Rightarrow>
                   Some (if err = None \<and> pos \<ge> 0 then Some pos else None,
                         h\<lparr>games := (games h)(uuid \<mapsto> g), menace := m\<rparr>))
         else Some (None, h))"

text \<open>
  Requests served at the same time. The server runs each request in a goroutine of its
  own. A request has arrived with its body, or has been admitted by the checks with its
  position, or has been answered; beside it stand the iteration order and the random
  number of the draw that its reply would make. \<open>advance\<close> runs the next part of the
  handler for one request, and \<open>schedule\<close> advances the requests in the order that a
  list of their indices gives. One request alone, advanced twice, is \<open>handler_MakeMove\<close>.
\<close>

datatype progress = Arrived "int option" | Admitted int | Answered response

definition advance ::
    "GameManager \<Rightarrow> string \<Rightarrow> progress \<times> int list \<times> nat \<Rightarrow>
       ((progress \<times> int list \<times> nat) \<times> GameManager) option" where
  "advance h gameID request =
     (case request of
        (Arrived body, order, r) \<Rightarrow>
          (case handler_MakeMove_admit h gameID body of
             None \<Rightarrow> None
           | Some (Inl resp) \<Rightarrow> Some ((Answered resp, order, r), h)
           | Some (Inr position) \<Rightarrow> Some ((Admitted position, order, r), h))
      | (Admitted position, order, r) \<Rightarrow>
          (case handler_MakeMove_act h gameID position order r of
             None \<Rightarrow> None
           | Some (resp, h) \<Rightarrow> Some ((Answered resp, order, r), h))
      | (Answered resp, order, r) \<Rightarrow> Some ((Answered resp, order, r), h))"

fun schedule ::
    "GameManager \<Rightarrow> string \<Rightarrow> (progress \<times> int list \<times> nat) list \<Rightarrow> nat list \<Rightarrow>
       ((progress \<times> int list \<times> nat) list \<times> GameManager) option" where
  "schedule h gameID requests [] = Some (requests, h)"
| "schedule h gameID requests (i # steps) =
     (if i < length requests
      then (case advance h gameID (requests ! i) of
              None \<Rightarrow> None
            | Some (request, h) \<Rightarrow> schedule h gameID (requests[i := request]) steps)
      else schedule h gameID requests steps)"

section \<open>Example states\<close>

text \<open>
  Concrete agents and sessions at which the theorems below are evaluated: an agent with
  one matchbox and a trace whose first entry has no matchbox, an agent with the matchbox
  of the empty board only.
\<close>

definition example_agent :: Menace where
  "example_agent =
     (NewMenace PlayerX)
       \<lparr>Matchboxes := [EmptyBoard \<mapsto> NewMatchbox EmptyBoard [0, 1, 2, 3, 4, 5, 6, 7, 8] 3],
        MoveHistory :=
          [\<lparr>BoardState = ''OX_______'', Position = 2, TransformIdx = 0\<rparr>,
           \<lparr>BoardState = EmptyBoard, Position = 4, TransformIdx = 0\<rparr>]\<rparr>"

definition fresh_agent :: Menace where
  "fresh_agent =
     (NewMenace PlayerX)
       \<lparr>Matchboxes := [EmptyBoard \<mapsto> NewMatchbox EmptyBoard [0, 1, 2, 3, 4, 5, 6, 7, 8] 3]\<rparr>"

text \<open>
  A session of the server in which the opponent is to make the move that ends the game.
  The server starts, a session is created in which the agent plays second, the opponent
  takes the corner 0 and the agent answers 1, the opponent takes the centre and the agent
  answers 2: the board is \<open>XOO_X____\<close>, and \<open>X\<close> at 8 completes a diagonal.
  \<open>statistics\<close> reads the counters of the agent of a manager.
\<close>

definition opened :: "GameManager option" where
  "opened =
     (case handler_NewGame NewHandler False ''session'' [] 0 of
        None \<Rightarrow> None
      | Some (menaceMove, h) \<Rightarrow>
          (case handler_MakeMove h ''session'' (Some 0) [1, 2, 3, 4, 5, 6, 7, 8] 0 of
             None \<Rightarrow> None
           | Some (resp, h) \<Rightarrow>
               (case handler_MakeMove h ''session'' (Some 4) [2, 3, 5, 6, 7, 8] 0 of
                  None \<Rightarrow> None
                | Some (resp, h) \<Rightarrow> Some h)))"

definition statistics :: "GameManager \<Rightarrow> go_int \<times> go_int \<times> go_int \<times> go_int" where
  "statistics h =
     (GamesPlayed (menace h), Menace.Wins (menace h), Menace.Losses (menace h),
      Menace.Draws (menace h))"

text \<open>
  Two requests for the session \<open>opened\<close>, the first with the move 8 that ends the game,
  the second with the move 3, advanced in a given order.
\<close>

definition two_requests ::
    "nat list \<Rightarrow> ((progress \<times> int list \<times> nat) list \<times> GameManager) option" where
  "two_requests steps =
     (case opened of
        None \<Rightarrow> None
      | Some h \<Rightarrow>
          schedule h ''session'' [(Arrived (Some 8), [], 0), (Arrived (Some 3), [], 0)] steps)"

section \<open>Round trip of positions\<close>

lemma int_range_cases_7:
  "0 \<le> (t::int) \<Longrightarrow> t \<le> 7 \<Longrightarrow>
     t = 0 \<or> t = 1 \<or> t = 2 \<or> t = 3 \<or> t = 4 \<or> t = 5 \<or> t = 6 \<or> t = 7"
  by arith

lemma Transformations_row:
  "index Transformations 0 = Some [0, 1, 2, 3, 4, 5, 6, 7, 8]"
  "index Transformations 1 = Some [6, 3, 0, 7, 4, 1, 8, 5, 2]"
  "index Transformations 2 = Some [8, 7, 6, 5, 4, 3, 2, 1, 0]"
  "index Transformations 3 = Some [2, 5, 8, 1, 4, 7, 0, 3, 6]"
  "index Transformations 4 = Some [2, 1, 0, 5, 4, 3, 8, 7, 6]"
  "index Transformations 5 = Some [6, 7, 8, 3, 4, 5, 0, 1, 2]"
  "index Transformations 6 = Some [0, 3, 6, 1, 4, 7, 2, 5, 8]"
  "index Transformations 7 = Some [8, 5, 2, 7, 4, 1, 6, 3, 0]"
  by (simp_all add: index_def Transformations_def)

lemma round_trip_row:
  assumes "index Transformations t = Some row"
    and "\<forall>p\<in>{0..8}. \<exists>q. index row p = Some q \<and> inverseTransform_loop row 0 q = Some p"
    and "0 \<le> p" "p \<le> 8"
  shows "\<exists>q. TransformPosition p t = Some q \<and> InverseTransformPosition q t = Some p"
proof -
  have "p \<in> {0..8}" using assms(3,4) by simp
  with assms(2) obtain q where "index row p = Some q" "inverseTransform_loop row 0 q = Some p"
    by blast
  with assms(1) show ?thesis
    by (simp add: TransformPosition_def InverseTransformPosition_def inverseTransform_def)
qed

lemma ball_0_8:
  "(\<forall>p\<in>{0..8::int}. P p) \<longleftrightarrow> P 0 \<and> P 1 \<and> P 2 \<and> P 3 \<and> P 4 \<and> P 5 \<and> P 6 \<and> P 7 \<and> P 8"
proof -
  have "{0..8::int} = {0, 1, 2, 3, 4, 5, 6, 7, 8}" by auto
  then show ?thesis by simp
qed

text \<open>
  C5. For every position \<open>p\<close> in 0..8 and every transformation index \<open>t\<close> in 0..7,
  \<open>TransformPosition\<close> returns a position \<open>q\<close>, and \<open>InverseTransformPosition\<close> of
  \<open>q\<close> and \<open>t\<close> returns \<open>p\<close>: neither call panics and the round trip is the identity.
\<close>

theorem position_round_trip:
  assumes "0 \<le> p" "p \<le> 8" "0 \<le> t" "t \<le> 7"
  shows "\<exists>q. TransformPosition p t = Some q \<and> InverseTransformPosition q t = Some p"
proof -
  from assms(3,4) consider "t = 0" | "t = 1" | "t = 2" | "t = 3" | "t = 4" | "t = 5" | "t = 6" | "t = 7"
    using int_range_cases_7 by blast
  then show ?thesis
  proof cases
    case 1 show ?thesis unfolding 1
      by (rule round_trip_row [OF Transformations_row(1) _ assms(1,2)])
         (simp add: ball_0_8 index_def)
  next
    case 2 show ?thesis unfolding 2
      by (rule round_trip_row [OF Transformations_row(2) _ assms(1,2)])
         (simp add: ball_0_8 index_def)
  next
    case 3 show ?thesis unfolding 3
      by (rule round_trip_row [OF Transformations_row(3) _ assms(1,2)])
         (simp add: ball_0_8 index_def)
  next
    case 4 show ?thesis unfolding 4
      by (rule round_trip_row [OF Transformations_row(4) _ assms(1,2)])
         (simp add: ball_0_8 index_def)
  next
    case 5 show ?thesis unfolding 5
      by (rule round_trip_row [OF Transformations_row(5) _ assms(1,2)])
         (simp add: ball_0_8 index_def)
  next
    case 6 show ?thesis unfolding 6
      by (rule round_trip_row [OF Transformations_row(6) _ assms(1,2)])
         (simp add: ball_0_8 index_def)
  next
    case 7 show ?thesis unfolding 7
      by (rule round_trip_row [OF Transformations_row(7) _ assms(1,2)])
         (simp add: ball_0_8 index_def)
  next
    case 8 show ?thesis unfolding 8
      by (rule round_trip_row [OF Transformations_row(8) _ assms(1,2)])
         (simp add: ball_0_8 index_def)
  qed
qed

theorem position_round_trip_witness:
  "TransformPosition 5 1 = Some 1 \<and> InverseTransformPosition 1 1 = Some 5"
  using position_round_trip [of 5 1]
  by (simp add: TransformPosition_def Transformations_def index_def)

section \<open>Rewards and penalties outside the bead domain\<close>

text \<open>
  C10. For every matchbox \<open>m\<close> and every position \<open>q\<close> that is not a key of its bead
  map, \<open>AddBeads\<close> and \<open>RemoveBeads\<close> return the matchbox as it was: no key is
  created and no count changes.
\<close>

theorem beads_unchanged_outside_domain:
  assumes "Beads m q = None"
  shows "AddBeads m q c = m \<and> RemoveBeads m q c minBeads = m"
  using assms by (simp add: AddBeads_def RemoveBeads_def)

theorem beads_unchanged_outside_domain_witness:
  "Beads (NewMatchbox ''XO_______'' [2, 3] 3) 0 = None
   \<and> AddBeads (NewMatchbox ''XO_______'' [2, 3] 3) 0 5 = NewMatchbox ''XO_______'' [2, 3] 3
   \<and> RemoveBeads (NewMatchbox ''XO_______'' [2, 3] 3) 0 5 1 = NewMatchbox ''XO_______'' [2, 3] 3"
proof -
  have h: "Beads (NewMatchbox ''XO_______'' [2, 3] 3) 0 = None"
    by (simp add: NewMatchbox_def)
  from beads_unchanged_outside_domain [OF h, of 5 1] h show ?thesis by simp
qed

section \<open>The floor of the bead counts\<close>

lemma NewMatchbox_loop_lookup:
  "NewMatchbox_loop moves init beads p = (if p \<in> set moves then Some init else beads p)"
  by (induction moves arbitrary: beads) auto

lemma Beads_NewMatchbox:
  "Beads (NewMatchbox s moves init) p = (if p \<in> set moves then Some init else None)"
  by (simp add: NewMatchbox_def NewMatchbox_loop_lookup)

lemma floor_holds_NewMatchbox:
  "minBeads \<le>s init \<Longrightarrow> floor_holds minBeads (NewMatchbox s moves init)"
  by (simp add: floor_holds_def Beads_NewMatchbox)

lemma floor_holds_RemoveBeads:
  assumes "floor_holds minBeads m"
  shows "floor_holds minBeads (RemoveBeads m position count minBeads)"
proof (cases "Beads m position")
  case None
  with assms show ?thesis by (simp add: RemoveBeads_def)
next
  case (Some current)
  have "minBeads \<le>s (if current - count <s minBeads then minBeads else current - count)"
    by (simp add: word_sle_eq word_sless_alt)
  with assms Some show ?thesis
    by (auto simp add: RemoveBeads_def floor_holds_def Let_def)
qed

lemma sint_add_in_range:
  fixes a b :: go_int
  assumes "0 \<le> sint b" "sint a + sint b < 2 ^ 63"
  shows "sint (a + b) = sint a + sint b"
proof -
  have "- (2 ^ 63) \<le> sint a" using sint_ge [of a] by simp
  with assms have "- (2 ^ 63) \<le> sint a + sint b" "sint a + sint b < 2 ^ 63" by simp_all
  then show ?thesis
    by (simp add: sint_word_ariths signed_take_bit_int_eq_self)
qed

lemma floor_holds_AddBeads:
  assumes "floor_holds minBeads m" "0 \<le>s count" "add_in_range m (OpAddBeads position count)"
  shows "floor_holds minBeads (AddBeads m position count)"
proof (cases "Beads m position")
  case None
  with assms show ?thesis by (simp add: AddBeads_def)
next
  case (Some current)
  from assms(2) have nn: "0 \<le> sint count" by (simp add: word_sle_eq)
  from assms(3) Some have "sint current + sint count < 2 ^ 63" by simp
  with nn have "sint (current + count) = sint current + sint count"
    by (rule sint_add_in_range)
  moreover from assms(1) Some have "sint minBeads \<le> sint current"
    by (simp add: floor_holds_def word_sle_eq)
  ultimately have "minBeads \<le>s current + count"
    using nn by (simp add: word_sle_eq)
  with assms(1) Some show ?thesis
    by (auto simp add: AddBeads_def floor_holds_def)
qed

lemma floor_holds_apply_ops:
  assumes "floor_holds minBeads m" "\<forall>x\<in>set ops. 0 \<le>s delta x" "adds_in_range minBeads m ops"
  shows "floor_holds minBeads (apply_ops minBeads m ops)"
  using assms
proof (induction ops arbitrary: m)
  case Nil
  then show ?case by simp
next
  case (Cons x xs)
  have "floor_holds minBeads (apply_op minBeads m x)"
  proof (cases x)
    case (OpAddBeads position count)
    with Cons.prems show ?thesis by (simp add: floor_holds_AddBeads)
  next
    case (OpRemoveBeads position count)
    with Cons.prems show ?thesis by (simp add: floor_holds_RemoveBeads)
  qed
  with Cons show ?case by simp
qed

text \<open>
  C6, as amended. For every matchbox created with an initial bead count that is at least
  the floor, after any sequence of \<open>AddBeads\<close> and \<open>RemoveBeads\<close> calls with
  non-negative deltas in which no sum computed by \<open>AddBeads\<close> exceeds the largest
  \<open>int\<close> (\<open>2^63 - 1\<close>), no listed move's bead count is below the floor.
\<close>

theorem floor_invariant:
  assumes "minBeads \<le>s initialBeads"
    and "\<forall>x\<in>set ops. 0 \<le>s delta x"
    and "adds_in_range minBeads (NewMatchbox boardState validMoves initialBeads) ops"
    and "Beads (apply_ops minBeads (NewMatchbox boardState validMoves initialBeads) ops) position
           = Some count"
  shows "minBeads \<le>s count"
proof -
  have "floor_holds minBeads (NewMatchbox boardState validMoves initialBeads)"
    using assms(1) by (rule floor_holds_NewMatchbox)
  then have "floor_holds minBeads
      (apply_ops minBeads (NewMatchbox boardState validMoves initialBeads) ops)"
    using assms(2,3) by (rule floor_holds_apply_ops)
  with assms(4) show ?thesis by (simp add: floor_holds_def)
qed

theorem floor_invariant_witness:
  "(1::go_int) \<le>s 3
   \<and> 0 \<le>s delta (OpRemoveBeads 4 1) \<and> 0 \<le>s delta (OpAddBeads 4 3)
   \<and> adds_in_range 1 (NewMatchbox EmptyBoard [0, 1, 2, 3, 4, 5, 6, 7, 8] 3)
        [OpRemoveBeads 4 1, OpRemoveBeads 4 1, OpRemoveBeads 4 1, OpAddBeads 4 3]
   \<and> Beads (apply_ops 1 (NewMatchbox EmptyBoard [0, 1, 2, 3, 4, 5, 6, 7, 8] 3)
        [OpRemoveBeads 4 1, OpRemoveBeads 4 1, OpRemoveBeads 4 1, OpAddBeads 4 3]) 4 = Some 4
   \<and> (1::go_int) \<le>s 4"
proof -
  let ?ops = "[OpRemoveBeads 4 1, OpRemoveBeads 4 1, OpRemoveBeads 4 1, OpAddBeads 4 3]"
  let ?m = "NewMatchbox EmptyBoard [0, 1, 2, 3, 4, 5, 6, 7, 8] 3"
  have h1: "(1::go_int) \<le>s 3"
    by (simp add: word_sle_eq)
  have h2: "\<forall>x\<in>set ?ops. 0 \<le>s delta x"
    by (simp add: word_sle_eq)
  have h3: "adds_in_range 1 ?m ?ops"
    by (simp add: NewMatchbox_def RemoveBeads_def AddBeads_def Let_def word_sless_alt)
  have h4: "Beads (apply_ops 1 ?m ?ops) 4 = Some 4"
    by (simp add: NewMatchbox_def RemoveBeads_def AddBeads_def Let_def word_sless_alt)
  have h2': "0 \<le>s delta (OpRemoveBeads 4 1) \<and> 0 \<le>s delta (OpAddBeads 4 3)"
    by (simp add: word_sle_eq)
  from floor_invariant [OF h1 h2 h3 h4] h1 h2' h3 h4 show ?thesis
    by blast
qed

text \<open>
  The claim as stated has no bound on the sums: a freshly created default matchbox
  (3 beads per move, floor 1) given \<open>2^63 - 1\<close> more beads for move 4 holds
  \<open>- 2^63 + 2\<close> beads for that move, which is below the floor.
\<close>

theorem floor_invariant_counterexample:
  "(1::go_int) \<le>s 3
   \<and> 0 \<le>s delta (OpAddBeads 4 9223372036854775807)
   \<and> Beads (apply_ops 1 (NewMatchbox EmptyBoard [0, 1, 2, 3, 4, 5, 6, 7, 8] 3)
        [OpAddBeads 4 9223372036854775807]) 4 = Some (- 9223372036854775806)
   \<and> \<not> (1 \<le>s (- 9223372036854775806 :: go_int))"
  by (simp add: NewMatchbox_def AddBeads_def word_sle_eq)

section \<open>The learning update\<close>

lemma Beads_AddBeads:
  "Beads (AddBeads mb q c) p = (if p = q then map_option (\<lambda>x. x + c) (Beads mb p) else Beads mb p)"
  by (cases "Beads mb q") (simp_all add: AddBeads_def)

lemma Beads_RemoveBeads:
  "Beads (RemoveBeads mb q c minBeads) p =
     (if p = q
      then map_option (\<lambda>x. if x - c <s minBeads then minBeads else x - c) (Beads mb p)
      else Beads mb p)"
  by (cases "Beads mb q") (simp_all add: RemoveBeads_def Let_def)

lemma Learn_move_other:
  "MoveRecord.BoardState move \<noteq> s \<Longrightarrow> Learn_move m result boxes move s = boxes s"
  by (simp add: Learn_move_def split: option.splits GameResult.splits)

lemma Learn_move_None:
  "boxes s = None \<Longrightarrow> Learn_move m result boxes move s = None"
  by (auto simp add: Learn_move_def split: option.splits GameResult.splits)

lemma Learn_move_same:
  assumes "boxes s = Some mb" "MoveRecord.BoardState move = s"
  shows "\<exists>mb'. Learn_move m result boxes move s = Some mb'
           \<and> (\<forall>p. Beads mb' p =
                 (if p = MoveRecord.Position move then map_option (bead_update m result) (Beads mb p)
                  else Beads mb p))"
proof (cases result)
  case ResultWin
  with assms show ?thesis
    by (simp add: Learn_move_def Beads_AddBeads bead_update_def cong: map_option_cong)
next
  case ResultLoss
  with assms show ?thesis
    by (simp add: Learn_move_def Beads_RemoveBeads bead_update_def cong: map_option_cong)
next
  case ResultDraw
  with assms show ?thesis
    by (simp add: Learn_move_def Beads_AddBeads bead_update_def cong: map_option_cong)
next
  case ResultInProgress
  with assms show ?thesis
    by (simp add: Learn_move_def bead_update_def option.map_ident cong: map_option_cong)
qed

lemma foldl_Learn_move_None:
  "boxes s = None \<Longrightarrow> foldl (Learn_move m result) boxes trace s = None"
  by (induction trace arbitrary: boxes) (simp_all add: Learn_move_None)

lemma map_option_funpow_Suc:
  "map_option (f ^^ n) (map_option f x) = map_option (f ^^ Suc n) x"
  by (cases x) (simp_all add: funpow_swap1)

lemma foldl_Learn_move_Some:
  assumes "boxes s = Some mb"
  shows "\<exists>mb'. foldl (Learn_move m result) boxes trace s = Some mb'
           \<and> (\<forall>p. Beads mb' p =
                 map_option (bead_update m result ^^ credits s p trace) (Beads mb p))"
  using assms
proof (induction trace arbitrary: boxes mb)
  case Nil
  then show ?case by (simp add: credits_def option.map_ident)
next
  case (Cons move rest)
  show ?case
  proof (cases "MoveRecord.BoardState move = s")
    case False
    then have "Learn_move m result boxes move s = Some mb"
      using Cons.prems by (simp add: Learn_move_other)
    from Cons.IH [of "Learn_move m result boxes move" mb, OF this] False show ?thesis
      by (simp add: credits_def)
  next
    case True
    from Learn_move_same [of boxes s mb move m result] Cons.prems True obtain mb1 where
      mb1: "Learn_move m result boxes move s = Some mb1"
      and beads1: "\<And>p. Beads mb1 p =
             (if p = MoveRecord.Position move then map_option (bead_update m result) (Beads mb p)
              else Beads mb p)"
      by blast
    from Cons.IH [of "Learn_move m result boxes move" mb1, OF mb1] obtain mb' where
      mb': "foldl (Learn_move m result) (Learn_move m result boxes move) rest s = Some mb'"
      and beads': "\<And>p. Beads mb' p =
             map_option (bead_update m result ^^ credits s p rest) (Beads mb1 p)"
      by blast
    have "Beads mb' p =
            map_option (bead_update m result ^^ credits s p (move # rest)) (Beads mb p)" for p
    proof (cases "p = MoveRecord.Position move")
      case True
      with \<open>MoveRecord.BoardState move = s\<close>
      have "credits s p (move # rest) = Suc (credits s p rest)"
        by (simp add: credits_def)
      then have c: "credits s p (move # rest) = Suc (credits s p rest)" .
      from True beads1 [of p]
      have "Beads mb1 p = map_option (bead_update m result) (Beads mb p)"
        by simp
      with beads' [of p]
      have "Beads mb' p =
              map_option (bead_update m result ^^ credits s p rest)
                (map_option (bead_update m result) (Beads mb p))"
        by simp
      also have "\<dots> = map_option (bead_update m result ^^ Suc (credits s p rest)) (Beads mb p)"
        by (rule map_option_funpow_Suc)
      finally show ?thesis
        by (simp only: c)
    next
      case False
      then have "credits s p (move # rest) = credits s p rest"
        by (simp add: credits_def)
      with False beads' [of p] beads1 [of p] show ?thesis
        by simp
    qed
    with mb' show ?thesis by simp
  qed
qed

lemma Learn_move_params:
  "WinReward m' = WinReward m \<Longrightarrow> DrawReward m' = DrawReward m \<Longrightarrow>
   LossPenalty m' = LossPenalty m \<Longrightarrow> MinBeads m' = MinBeads m \<Longrightarrow>
   Learn_move m' = Learn_move m"
  by (intro ext) (simp add: Learn_move_def split: option.splits GameResult.splits)

lemma Matchboxes_Learn:
  "Matchboxes (Learn m result) = foldl (Learn_move m result) (Matchboxes m) (MoveHistory m)"
proof -
  have "Learn_move (case result of
            ResultWin \<Rightarrow> m\<lparr>GamesPlayed := GamesPlayed m + 1, Menace.Wins := Menace.Wins m + 1\<rparr>
          | ResultLoss \<Rightarrow> m\<lparr>GamesPlayed := GamesPlayed m + 1, Menace.Losses := Menace.Losses m + 1\<rparr>
          | ResultDraw \<Rightarrow> m\<lparr>GamesPlayed := GamesPlayed m + 1, Menace.Draws := Menace.Draws m + 1\<rparr>
          | ResultInProgress \<Rightarrow> m\<lparr>GamesPlayed := GamesPlayed m + 1\<rparr>) = Learn_move m"
    by (rule Learn_move_params) (simp_all split: GameResult.splits)
  then show ?thesis
    by (cases result) (simp_all add: Learn_def recordHistorySnapshot_def Let_def)
qed

lemma MoveHistory_Learn: "MoveHistory (Learn m result) = []"
  by (cases result) (simp_all add: Learn_def recordHistorySnapshot_def Let_def)

lemma counters_Learn:
  "GamesPlayed (Learn m result) = GamesPlayed m + 1"
  "Menace.Wins (Learn m result) = Menace.Wins m + (if result = ResultWin then 1 else 0)"
  "Menace.Losses (Learn m result) = Menace.Losses m + (if result = ResultLoss then 1 else 0)"
  "Menace.Draws (Learn m result) = Menace.Draws m + (if result = ResultDraw then 1 else 0)"
  by (cases result; simp add: Learn_def recordHistorySnapshot_def Let_def)+

lemma params_Learn:
  "WinReward (Learn m result) = WinReward m"
  "DrawReward (Learn m result) = DrawReward m"
  "LossPenalty (Learn m result) = LossPenalty m"
  "MinBeads (Learn m result) = MinBeads m"
  "InitialBeads (Learn m result) = InitialBeads m"
  by (cases result; simp add: Learn_def recordHistorySnapshot_def Let_def)+

text \<open>
  C9. \<open>Learn\<close> leaves a state without a matchbox without one, so a traced entry whose
  matchbox is missing is skipped; in every matchbox that is there, each move's count
  receives the reward or penalty once for every traced entry that names that state and
  move, wherever the skipped entries stand in the trace. Afterwards the move history is
  empty, the games counter is one higher and the counter of the result is one higher,
  the other two unchanged.
\<close>

theorem Learn_skips_missing_matchboxes:
  "MoveHistory (Learn m result) = []
   \<and> GamesPlayed (Learn m result) = GamesPlayed m + 1
   \<and> Menace.Wins (Learn m result) = Menace.Wins m + (if result = ResultWin then 1 else 0)
   \<and> Menace.Losses (Learn m result) = Menace.Losses m + (if result = ResultLoss then 1 else 0)
   \<and> Menace.Draws (Learn m result) = Menace.Draws m + (if result = ResultDraw then 1 else 0)
   \<and> (\<forall>s. Matchboxes m s = None \<longrightarrow> Matchboxes (Learn m result) s = None)
   \<and> (\<forall>s mb. Matchboxes m s = Some mb \<longrightarrow>
         (\<exists>mb'. Matchboxes (Learn m result) s = Some mb'
            \<and> (\<forall>p. Beads mb' p =
                  map_option (bead_update m result ^^ credits s p (MoveHistory m)) (Beads mb p))))"
  by (simp add: MoveHistory_Learn counters_Learn Matchboxes_Learn
        foldl_Learn_move_None foldl_Learn_move_Some)

theorem Learn_skips_missing_matchboxes_witness:
  "Matchboxes example_agent ''OX_______'' = None
   \<and> Matchboxes (Learn example_agent ResultWin) ''OX_______'' = None
   \<and> Matchboxes example_agent EmptyBoard
        = Some (NewMatchbox EmptyBoard [0, 1, 2, 3, 4, 5, 6, 7, 8] 3)
   \<and> (\<exists>mb'. Matchboxes (Learn example_agent ResultWin) EmptyBoard = Some mb'
          \<and> Beads mb' 4 = Some 6 \<and> Beads mb' 2 = Some 3)
   \<and> MoveHistory (Learn example_agent ResultWin) = []
   \<and> GamesPlayed (Learn example_agent ResultWin) = 1
   \<and> Menace.Wins (Learn example_agent ResultWin) = 1"
proof -
  note t = Learn_skips_missing_matchboxes [of example_agent ResultWin]
  have a: "Matchboxes example_agent ''OX_______'' = None"
    by (simp add: example_agent_def EmptyBoard_def)
  have b: "Matchboxes example_agent EmptyBoard
             = Some (NewMatchbox EmptyBoard [0, 1, 2, 3, 4, 5, 6, 7, 8] 3)"
    by (simp add: example_agent_def)
  from t a have a': "Matchboxes (Learn example_agent ResultWin) ''OX_______'' = None"
    by blast
  from t b obtain mb' where
    mb': "Matchboxes (Learn example_agent ResultWin) EmptyBoard = Some mb'"
    and beads: "\<And>p. Beads mb' p =
        map_option (bead_update example_agent ResultWin
                      ^^ credits EmptyBoard p (MoveHistory example_agent))
          (Beads (NewMatchbox EmptyBoard [0, 1, 2, 3, 4, 5, 6, 7, 8] 3) p)"
    by blast
  have "Beads mb' 4 = Some 6" "Beads mb' 2 = Some 3"
    by (simp_all add: beads credits_def example_agent_def NewMenace_def bead_update_def
          Beads_NewMatchbox EmptyBoard_def)
  with mb' have c: "\<exists>mb'. Matchboxes (Learn example_agent ResultWin) EmptyBoard = Some mb'
          \<and> Beads mb' 4 = Some 6 \<and> Beads mb' 2 = Some 3"
    by blast
  from t have "MoveHistory (Learn example_agent ResultWin) = []"
    "GamesPlayed (Learn example_agent ResultWin) = GamesPlayed example_agent + 1"
    "Menace.Wins (Learn example_agent ResultWin) = Menace.Wins example_agent + 1"
    by simp_all
  then have d: "MoveHistory (Learn example_agent ResultWin) = []"
    "GamesPlayed (Learn example_agent ResultWin) = 1"
    "Menace.Wins (Learn example_agent ResultWin) = 1"
    by (simp_all add: example_agent_def NewMenace_def)
  from a a' b c d show ?thesis by blast
qed

section \<open>Repeated wins\<close>

lemma GetMove_frame:
  assumes "GetMove m b order r = Some (pos, m')"
  shows "WinReward m' = WinReward m"
    and "\<exists>move. MoveHistory m' = MoveHistory m @ [move]"
    and "Matchboxes m s = Some mb \<Longrightarrow> \<exists>mb'. Matchboxes m' s = Some mb' \<and> Beads mb' = Beads mb"
  using assms
  by (auto simp add: GetMove_def GetOrCreateMatchbox_def Let_def
        split: option.splits prod.splits if_splits)

lemma play_moves_frame:
  assumes "play_moves m calls = Some m'"
  shows "WinReward m' = WinReward m
    \<and> (Matchboxes m s = Some mb \<longrightarrow> (\<exists>mb'. Matchboxes m' s = Some mb' \<and> Beads mb' = Beads mb))"
  using assms
proof (induction calls arbitrary: m mb)
  case Nil
  then show ?case by simp
next
  case (Cons call rest)
  obtain b order r where call: "call = (b, order, r)" by (cases call)
  with Cons.prems obtain pos m1 where
    g: "GetMove m b order r = Some (pos, m1)" and p: "play_moves m1 rest = Some m'"
    by (auto split: option.splits)
  show ?case
  proof (intro conjI impI)
    from Cons.IH [OF p] GetMove_frame(1) [OF g] show "WinReward m' = WinReward m" by simp
  next
    assume "Matchboxes m s = Some mb"
    from GetMove_frame(3) [OF g this] obtain mb1 where
      "Matchboxes m1 s = Some mb1" "Beads mb1 = Beads mb" by blast
    with Cons.IH [OF p, of mb1] show "\<exists>mb'. Matchboxes m' s = Some mb' \<and> Beads mb' = Beads mb"
      by auto
  qed
qed

lemma funpow_add_const:
  fixes c w :: go_int
  shows "((\<lambda>x. x + w) ^^ n) c = c + word_of_nat n * w"
  by (induction n) (simp_all add: algebra_simps)

lemma Learn_win_credit:
  assumes "Matchboxes m s = Some mb" "Beads mb p = Some c"
  shows "\<exists>mb'. Matchboxes (Learn m ResultWin) s = Some mb'
           \<and> Beads mb' p = Some (c + word_of_nat (credits s p (MoveHistory m)) * WinReward m)"
proof -
  from foldl_Learn_move_Some [where boxes = "Matchboxes m" and s = s and mb = mb
      and m = m and result = ResultWin and trace = "MoveHistory m"] assms(1)
  obtain mb' where
    "Matchboxes (Learn m ResultWin) s = Some mb'"
    "Beads mb' p = map_option (bead_update m ResultWin ^^ credits s p (MoveHistory m)) (Beads mb p)"
    by (auto simp add: Matchboxes_Learn)
  moreover have "bead_update m ResultWin = (\<lambda>x. x + WinReward m)"
    by (intro ext) (simp add: bead_update_def)
  ultimately show ?thesis
    using assms(2) by (simp add: funpow_add_const)
qed

lemma win_episodes_count:
  assumes "Matchboxes m s = Some mb" "Beads mb p = Some b0" "credited_once s p m eps"
  shows "\<exists>m' mb'. win_episodes m eps = Some m' \<and> Matchboxes m' s = Some mb'
           \<and> Beads mb' p = Some (b0 + word_of_nat (length eps) * WinReward m)"
  using assms
proof (induction eps arbitrary: m mb b0)
  case Nil
  then show ?case by simp
next
  case (Cons calls rest)
  from Cons.prems(3) obtain m1 where
    p: "play_moves (StartNewGame m) calls = Some m1"
    and once: "credits s p (MoveHistory m1) = 1"
    and rest: "credited_once s p (Learn m1 ResultWin) rest"
    by (auto split: option.splits)
  have "Matchboxes (StartNewGame m) s = Some mb"
    using Cons.prems(1) by (simp add: StartNewGame_def)
  with play_moves_frame [OF p, of s mb] obtain mb1 where
    w1: "WinReward m1 = WinReward m"
    and mb1: "Matchboxes m1 s = Some mb1" "Beads mb1 = Beads mb"
    by (auto simp add: StartNewGame_def)
  from mb1 Cons.prems(2) have "Beads mb1 p = Some b0" by simp
  from Learn_win_credit [OF mb1(1) this] once w1 obtain mb2 where
    mb2: "Matchboxes (Learn m1 ResultWin) s = Some mb2"
      "Beads mb2 p = Some (b0 + WinReward m)"
    by auto
  from Cons.IH [OF mb2 rest] obtain m' mb' where
    "win_episodes (Learn m1 ResultWin) rest = Some m'" "Matchboxes m' s = Some mb'"
    "Beads mb' p = Some (b0 + WinReward m + word_of_nat (length rest) * WinReward (Learn m1 ResultWin))"
    by blast
  with p w1 show ?case
    by (simp add: params_Learn algebra_simps)
qed

lemma sint_linear_in_range:
  fixes b0 w :: go_int
  assumes "- (2 ^ 63) \<le> sint b0 + int n * sint w" "sint b0 + int n * sint w < 2 ^ 63"
  shows "sint (b0 + word_of_nat n * w) = sint b0 + int n * sint w"
proof -
  have "b0 + word_of_nat n * w = word_of_int (sint b0 + int n * sint w)"
    by simp
  then have "sint (b0 + word_of_nat n * w) = signed_take_bit 63 (sint b0 + int n * sint w)"
    by (simp only: sint_sbintrunc') simp
  also have "\<dots> = sint b0 + int n * sint w"
    using assms by (simp add: signed_take_bit_int_eq_self)
  finally show ?thesis .
qed

text \<open>
  C8. When the matchbox of state \<open>s\<close> holds \<open>b0\<close> beads for move \<open>p\<close>, after \<open>N\<close>
  episodes that each end in a win and whose traces each name \<open>(s, p)\<close> exactly once,
  the count of \<open>p\<close> is \<open>b0 + N * WinReward\<close>: computed in Go's \<open>int\<close>, and as a
  number whenever that number fits an \<open>int\<close>.
\<close>

theorem repeated_wins:
  assumes "Matchboxes m s = Some mb" "Beads mb p = Some b0" "credited_once s p m eps"
  shows "\<exists>m' mb' count. win_episodes m eps = Some m' \<and> Matchboxes m' s = Some mb'
           \<and> Beads mb' p = Some count
           \<and> count = b0 + word_of_nat (length eps) * WinReward m
           \<and> (- (2 ^ 63) \<le> sint b0 + int (length eps) * sint (WinReward m)
                \<and> sint b0 + int (length eps) * sint (WinReward m) < 2 ^ 63
              \<longrightarrow> sint count = sint b0 + int (length eps) * sint (WinReward m))"
proof -
  from win_episodes_count [OF assms] obtain m' mb' where
    "win_episodes m eps = Some m'" "Matchboxes m' s = Some mb'"
    "Beads mb' p = Some (b0 + word_of_nat (length eps) * WinReward m)"
    by blast
  then show ?thesis
    by (auto simp add: sint_linear_in_range)
qed

section \<open>The canonical form\<close>

lemma insertionSort_inner_length:
  "j < length data \<Longrightarrow> length (insertionSort_inner lessf data 0 j) = length data"
  by (induction j arbitrary: data) simp_all

lemma insertionSort_inner_drop:
  "j < length data \<Longrightarrow>
     drop (Suc j) (insertionSort_inner lessf data 0 j) = drop (Suc j) data"
proof (induction j arbitrary: data)
  case 0
  then show ?case by simp
next
  case (Suc j)
  let ?d = "data[Suc j := data ! j, j := data ! Suc j]"
  from Suc.prems have "j < length ?d" by simp
  then have "drop (Suc j) (insertionSort_inner lessf ?d 0 j) = drop (Suc j) ?d" by (rule Suc.IH)
  then have "drop (Suc (Suc j)) (insertionSort_inner lessf ?d 0 j) = drop (Suc (Suc j)) ?d"
    by (metis drop_Suc tl_drop)
  then show ?case by simp
qed

lemma insertionSort_inner_set_take:
  "j < length data \<Longrightarrow>
     set (take (Suc j) (insertionSort_inner lessf data 0 j)) = set (take (Suc j) data)"
proof (induction j arbitrary: data)
  case 0
  then show ?case by simp
next
  case (Suc j)
  let ?d = "data[Suc j := data ! j, j := data ! Suc j]"
  let ?r = "insertionSort_inner lessf ?d 0 j"
  from Suc.prems have j: "j < length ?d" by simp
  show ?case
  proof (cases "lessf (data ! Suc j) (data ! j)")
    case False
    then show ?thesis by simp
  next
    case True
    have len: "length ?r = length data"
      using j by (simp add: insertionSort_inner_length)
    have "drop (Suc j) ?r = drop (Suc j) ?d"
      using j by (rule insertionSort_inner_drop)
    then have "hd (drop (Suc j) ?r) = hd (drop (Suc j) ?d)" by simp
    then have last: "?r ! Suc j = data ! j"
      using Suc.prems len by (simp add: hd_drop_conv_nth)
    have "set (take (Suc j) ?r) = set (take (Suc j) ?d)"
      using j by (rule Suc.IH)
    also have "take (Suc j) ?d = take j data @ [data ! Suc j]"
      using Suc.prems by (simp add: take_Suc_conv_app_nth)
    finally have "set (take (Suc (Suc j)) ?r) = set (take j data) \<union> {data ! Suc j} \<union> {data ! j}"
      using Suc.prems len last by (simp add: take_Suc_conv_app_nth [of "Suc j"])
    also have "\<dots> = set (take (Suc (Suc j)) data)"
      using Suc.prems by (auto simp add: take_Suc_conv_app_nth)
    finally show ?thesis using True by simp
  qed
qed

lemma insertionSort_inner_head:
  "j < length data \<Longrightarrow>
     insertionSort_inner lessf data 0 j ! 0 =
       (if \<forall>k<j. lessf (data ! j) (data ! k) then data ! j else data ! 0)"
proof (induction j arbitrary: data)
  case 0
  then show ?case by simp
next
  case (Suc j)
  let ?d = "data[Suc j := data ! j, j := data ! Suc j]"
  from Suc.prems have j: "j < length ?d" by simp
  show ?case
  proof (cases "lessf (data ! Suc j) (data ! j)")
    case False
    then show ?thesis by auto
  next
    case True
    have dj: "?d ! j = data ! Suc j" using Suc.prems by simp
    have dk: "?d ! k = data ! k" if "k < j" for k using that by simp
    have d0: "j \<noteq> 0 \<Longrightarrow> ?d ! 0 = data ! 0" by simp
    have "insertionSort_inner lessf data 0 (Suc j) ! 0 = insertionSort_inner lessf ?d 0 j ! 0"
      using True by simp
    also have "\<dots> = (if \<forall>k<j. lessf (?d ! j) (?d ! k) then ?d ! j else ?d ! 0)"
      using j by (rule Suc.IH)
    also have "\<dots> = (if \<forall>k<j. lessf (data ! Suc j) (data ! k) then data ! Suc j else ?d ! 0)"
    proof -
      have "(\<forall>k<j. lessf (?d ! j) (?d ! k)) = (\<forall>k<j. lessf (data ! Suc j) (data ! k))"
        using dj dk by auto
      then show ?thesis by (simp only: dj)
    qed
    also have "\<dots> = (if \<forall>k<Suc j. lessf (data ! Suc j) (data ! k) then data ! Suc j else data ! 0)"
      using True d0 by (cases "j = 0") (auto simp add: less_Suc_eq)
    finally show ?thesis .
  qed
qed

lemma foldl_earlier_min_mem:
  "foldl earlier_min x ys \<in> set (x # ys)"
  by (induction ys arbitrary: x) (auto simp add: earlier_min_def)

lemma foldl_earlier_min_le_all:
  "\<forall>y\<in>set (x # ys). fst (foldl earlier_min x ys) \<le> fst y"
proof (induction ys arbitrary: x)
  case Nil
  then show ?case by simp
next
  case (Cons z zs)
  have ih: "\<forall>y\<in>set (earlier_min x z # zs). fst (foldl earlier_min (earlier_min x z) zs) \<le> fst y"
    by (rule Cons.IH)
  then have "fst (foldl earlier_min (earlier_min x z) zs) \<le> fst (earlier_min x z)"
    by simp
  moreover have "fst (earlier_min x z) \<le> fst x" "fst (earlier_min x z) \<le> fst z"
    by (auto simp add: earlier_min_def)
  ultimately have "fst (foldl earlier_min (earlier_min x z) zs) \<le> fst x"
    "fst (foldl earlier_min (earlier_min x z) zs) \<le> fst z"
    by simp_all
  with ih show ?case by simp
qed

lemma foldl_earlier_min_le:
  "y \<in> set (x # ys) \<Longrightarrow> fst (foldl earlier_min x ys) \<le> fst y"
  using foldl_earlier_min_le_all [of x ys] by blast

lemma insertionSort_outer:
  fixes x :: "'k::linorder \<times> 'i"
  assumes "n \<le> length ys"
  defines "r \<equiv> foldl (\<lambda>data i. insertionSort_inner (\<lambda>v w. fst v < fst w) data 0 i) (x # ys)
                    [1 ..< Suc n]"
  shows "length r = Suc (length ys) \<and> set (take (Suc n) r) = set (x # take n ys)
           \<and> drop (Suc n) r = drop n ys \<and> r ! 0 = foldl earlier_min x (take n ys)"
  using assms(1) unfolding r_def
proof (induction n)
  case 0
  then show ?case by simp
next
  case (Suc n)
  let ?lessf = "\<lambda>v w :: 'k \<times> 'i. fst v < fst w"
  let ?r = "foldl (\<lambda>data i. insertionSort_inner ?lessf data 0 i) (x # ys) [1 ..< Suc n]"
  let ?r' = "insertionSort_inner ?lessf ?r 0 (Suc n)"
  from Suc have n: "n < length ys" and
    len: "length ?r = Suc (length ys)" and pre: "set (take (Suc n) ?r) = set (x # take n ys)" and
    dr: "drop (Suc n) ?r = drop n ys" and hd: "?r ! 0 = foldl earlier_min x (take n ys)"
    by simp_all
  from n len have inrange: "Suc n < length ?r" by simp
  have step: "foldl (\<lambda>data i. insertionSort_inner ?lessf data 0 i) (x # ys) [1 ..< Suc (Suc n)] = ?r'"
    by simp
  have rn: "?r ! Suc n = ys ! n"
  proof -
    have "?r ! Suc n = hd (drop (Suc n) ?r)"
      using inrange by (simp add: hd_drop_conv_nth)
    also have "\<dots> = hd (drop n ys)" by (simp only: dr)
    also have "\<dots> = ys ! n" using n by (simp add: hd_drop_conv_nth)
    finally show ?thesis .
  qed
  have cond: "(\<forall>k<Suc n. ?lessf (?r ! Suc n) (?r ! k)) \<longleftrightarrow> fst (ys ! n) < fst (?r ! 0)"
  proof
    assume "\<forall>k<Suc n. ?lessf (?r ! Suc n) (?r ! k)"
    then have "?lessf (?r ! Suc n) (?r ! 0)" by blast
    then show "fst (ys ! n) < fst (?r ! 0)" by (simp only: rn)
  next
    assume a: "fst (ys ! n) < fst (?r ! 0)"
    show "\<forall>k<Suc n. ?lessf (?r ! Suc n) (?r ! k)"
    proof (intro allI impI)
      fix k assume k: "k < Suc n"
      with inrange have "k < length (take (Suc n) ?r)" by simp
      then have "take (Suc n) ?r ! k \<in> set (take (Suc n) ?r)" by (rule nth_mem)
      with k have "?r ! k \<in> set (take (Suc n) ?r)" by simp
      then have "?r ! k \<in> set (x # take n ys)" by (simp only: pre)
      then have "fst (foldl earlier_min x (take n ys)) \<le> fst (?r ! k)"
        by (rule foldl_earlier_min_le)
      with a hd have "fst (ys ! n) < fst (?r ! k)"
        by simp
      then show "fst (?r ! Suc n) < fst (?r ! k)"
        by (simp only: rn)
    qed
  qed
  have "?r' ! 0 = (if \<forall>k<Suc n. ?lessf (?r ! Suc n) (?r ! k) then ?r ! Suc n else ?r ! 0)"
    using inrange by (rule insertionSort_inner_head)
  also have "\<dots> = earlier_min (?r ! 0) (ys ! n)"
    using cond unfolding rn earlier_min_def by simp
  also have "\<dots> = earlier_min (foldl earlier_min x (take n ys)) (ys ! n)"
    by (simp only: hd)
  also have "\<dots> = foldl earlier_min x (take (Suc n) ys)"
    using n by (simp add: take_Suc_conv_app_nth)
  finally have h: "?r' ! 0 = foldl earlier_min x (take (Suc n) ys)" .
  have "length ?r' = Suc (length ys)"
    using inrange len by (simp only: insertionSort_inner_length)
  moreover have "set (take (Suc (Suc n)) ?r') = set (x # take (Suc n) ys)"
  proof -
    have "set (take (Suc (Suc n)) ?r') = set (take (Suc (Suc n)) ?r)"
      using inrange by (rule insertionSort_inner_set_take)
    also have "take (Suc (Suc n)) ?r = take (Suc n) ?r @ [?r ! Suc n]"
      using inrange by (rule take_Suc_conv_app_nth)
    also have "set \<dots> = set (x # take n ys) \<union> {ys ! n}"
      by (simp only: set_append pre rn) simp
    also have "\<dots> = set (x # take (Suc n) ys)"
      using n by (auto simp add: take_Suc_conv_app_nth)
    finally show ?thesis .
  qed
  moreover have "drop (Suc (Suc n)) ?r' = drop (Suc n) ys"
  proof -
    have "drop (Suc (Suc n)) ?r' = drop (Suc (Suc n)) ?r"
      using inrange by (rule insertionSort_inner_drop)
    also have "\<dots> = tl (drop (Suc n) ?r)" by (simp add: drop_Suc tl_drop)
    also have "\<dots> = tl (drop n ys)" by (simp only: dr)
    also have "\<dots> = drop (Suc n) ys" by (simp add: drop_Suc tl_drop)
    finally show ?thesis .
  qed
  ultimately show ?case
    using h unfolding step by blast
qed

lemma sort_Slice_head:
  fixes x :: "'k::linorder \<times> 'i"
  shows "\<exists>rest. sort_Slice (x # ys) (\<lambda>v w. fst v < fst w) = foldl earlier_min x ys # rest"
proof -
  let ?r = "sort_Slice (x # ys) (\<lambda>v w. fst v < fst w)"
  from insertionSort_outer [of "length ys" ys x]
  have "length ?r = Suc (length ys)" "?r ! 0 = foldl earlier_min x ys"
    by (simp_all add: sort_Slice_def insertionSort_func_def)
  then show ?thesis by (cases ?r) simp_all
qed

lemma foldl_earlier_min_first:
  fixes x :: "'k::linorder \<times> int"
  assumes "sorted_wrt (\<lambda>a b. snd a < snd b) (x # ys)" "(v, u) \<in> set (x # ys)"
  shows "fst (foldl earlier_min x ys) \<le> v
         \<and> (v = fst (foldl earlier_min x ys) \<longrightarrow> snd (foldl earlier_min x ys) \<le> u)"
  using assms
proof (induction ys arbitrary: v u rule: rev_induct)
  case Nil
  then show ?case by auto
next
  case (snoc y ys)
  let ?best = "foldl earlier_min x ys"
  from snoc.prems(1) have sorted: "sorted_wrt (\<lambda>a b. snd a < snd b) (x # ys)"
    and later: "\<forall>a\<in>set (x # ys). snd a < snd y"
    by (simp_all add: sorted_wrt_append)
  have mem: "?best \<in> set (x # ys)" by (rule foldl_earlier_min_mem)
  with later have lt: "snd ?best < snd y" by blast
  have new: "foldl earlier_min x (ys @ [y]) = (if fst y < fst ?best then y else ?best)"
    by (simp add: earlier_min_def)
  from snoc.prems(2) consider "(v, u) \<in> set (x # ys)" | "(v, u) = y" by auto
  then show ?case
  proof cases
    case 1
    from snoc.IH [OF sorted 1] have "fst ?best \<le> v" "v = fst ?best \<longrightarrow> snd ?best \<le> u"
      by simp_all
    then show ?thesis unfolding new by auto
  next
    case 2
    then have "fst y = v" "snd y = u" by auto
    with lt show ?thesis unfolding new by auto
  qed
qed

lemma applyTransform_loop_map:
  assumes "\<forall>oldPos\<in>set rest. 0 \<le> oldPos \<and> oldPos < int (length s)"
    and "newPos + length rest = length result"
  shows "applyTransform_loop s rest (int newPos) result =
           Some (take newPos result @ map (\<lambda>oldPos. s ! nat oldPos) rest)"
  using assms
proof (induction rest arbitrary: newPos result)
  case Nil
  then show ?case by simp
next
  case (Cons oldPos rest)
  let ?c = "s ! nat oldPos"
  from Cons.prems have ix: "index s oldPos = Some ?c" and lt: "newPos < length result"
    by (simp_all add: index_def)
  have "applyTransform_loop s rest (int (Suc newPos)) (result[newPos := ?c]) =
          Some (take (Suc newPos) (result[newPos := ?c]) @ map (\<lambda>oldPos. s ! nat oldPos) rest)"
    using Cons.prems by (intro Cons.IH) simp_all
  moreover have "take (Suc newPos) (result[newPos := ?c]) = take newPos result @ [?c]"
    using lt by (simp add: take_Suc_conv_app_nth)
  moreover have "int (Suc newPos) = int newPos + 1" by simp
  ultimately have "applyTransform_loop s rest (int newPos + 1) (result[newPos := ?c]) =
          Some (take newPos result @ ?c # map (\<lambda>oldPos. s ! nat oldPos) rest)"
    by (simp only: append_assoc append_Cons append_Nil)
  then show ?case
    using ix lt by simp
qed

lemma applyTransform_map:
  assumes "length transform = 9" "\<forall>oldPos\<in>set transform. 0 \<le> oldPos \<and> oldPos < int (length s)"
  shows "applyTransform s transform = Some (map (\<lambda>oldPos. s ! nat oldPos) transform)"
  using applyTransform_loop_map [of transform s 0 "replicate 9 (CHR 0x00)"] assms
  by (simp add: applyTransform_def)

lemma length_9_obtain:
  assumes "length (s :: 'a list) = 9"
  obtains a0 a1 a2 a3 a4 a5 a6 a7 a8 where "s = [a0, a1, a2, a3, a4, a5, a6, a7, a8]"
proof -
  from assms have "length s = Suc (Suc (Suc (Suc (Suc (Suc (Suc (Suc (Suc 0))))))))"
    by simp
  then obtain a0 a1 a2 a3 a4 a5 a6 a7 a8 where "s = [a0, a1, a2, a3, a4, a5, a6, a7, a8]"
    by (auto simp add: length_Suc_conv)
  then show ?thesis by (rule that)
qed

lemma applyTransform_rows:
  "applyTransform [a0, a1, a2, a3, a4, a5, a6, a7, a8] [0, 1, 2, 3, 4, 5, 6, 7, 8]
     = Some [a0, a1, a2, a3, a4, a5, a6, a7, a8]"
  "applyTransform [a0, a1, a2, a3, a4, a5, a6, a7, a8] [6, 3, 0, 7, 4, 1, 8, 5, 2]
     = Some [a6, a3, a0, a7, a4, a1, a8, a5, a2]"
  "applyTransform [a0, a1, a2, a3, a4, a5, a6, a7, a8] [8, 7, 6, 5, 4, 3, 2, 1, 0]
     = Some [a8, a7, a6, a5, a4, a3, a2, a1, a0]"
  "applyTransform [a0, a1, a2, a3, a4, a5, a6, a7, a8] [2, 5, 8, 1, 4, 7, 0, 3, 6]
     = Some [a2, a5, a8, a1, a4, a7, a0, a3, a6]"
  "applyTransform [a0, a1, a2, a3, a4, a5, a6, a7, a8] [2, 1, 0, 5, 4, 3, 8, 7, 6]
     = Some [a2, a1, a0, a5, a4, a3, a8, a7, a6]"
  "applyTransform [a0, a1, a2, a3, a4, a5, a6, a7, a8] [6, 7, 8, 3, 4, 5, 0, 1, 2]
     = Some [a6, a7, a8, a3, a4, a5, a0, a1, a2]"
  "applyTransform [a0, a1, a2, a3, a4, a5, a6, a7, a8] [0, 3, 6, 1, 4, 7, 2, 5, 8]
     = Some [a0, a3, a6, a1, a4, a7, a2, a5, a8]"
  "applyTransform [a0, a1, a2, a3, a4, a5, a6, a7, a8] [8, 5, 2, 7, 4, 1, 6, 3, 0]
     = Some [a8, a5, a2, a7, a4, a1, a6, a3, a0]"
  by (simp_all add: applyTransform_map)

lemma Normalize_variants_9:
  "Normalize_variants [a0, a1, a2, a3, a4, a5, a6, a7, a8] Transformations 0 =
     Some [([a0, a1, a2, a3, a4, a5, a6, a7, a8], 0),
           ([a6, a3, a0, a7, a4, a1, a8, a5, a2], 1),
           ([a8, a7, a6, a5, a4, a3, a2, a1, a0], 2),
           ([a2, a5, a8, a1, a4, a7, a0, a3, a6], 3),
           ([a2, a1, a0, a5, a4, a3, a8, a7, a6], 4),
           ([a6, a7, a8, a3, a4, a5, a0, a1, a2], 5),
           ([a0, a3, a6, a1, a4, a7, a2, a5, a8], 6),
           ([a8, a5, a2, a7, a4, a1, a6, a3, a0], 7)]"
  by (simp add: Transformations_def applyTransform_rows)

lemma index_Transformations_cases:
  assumes "index Transformations u = Some tr"
  shows "u = 0 \<or> u = 1 \<or> u = 2 \<or> u = 3 \<or> u = 4 \<or> u = 5 \<or> u = 6 \<or> u = 7"
proof -
  from assms have "0 \<le> u" "u \<le> 7"
    by (simp_all add: index_def Transformations_def split: if_splits)
  then show ?thesis by (rule int_range_cases_7)
qed

lemma variant_in_variants:
  assumes "Normalize_variants s Transformations 0 = Some vs" "length s = 9"
    and "index Transformations u = Some tr" "applyTransform s tr = Some v"
  shows "(v, u) \<in> set vs"
proof -
  from assms(2) obtain a0 a1 a2 a3 a4 a5 a6 a7 a8 where
    s: "s = [a0, a1, a2, a3, a4, a5, a6, a7, a8]" by (rule length_9_obtain)
  from index_Transformations_cases [OF assms(3)] assms(1,3,4) show ?thesis
    unfolding s Normalize_variants_9
    by (elim disjE) (auto simp add: Transformations_row applyTransform_rows)
qed

lemma Normalize_variants_mem:
  assumes "Normalize_variants s trs i = Some vs" "(v, u) \<in> set vs"
  shows "\<exists>k<length trs. u = i + int k \<and> applyTransform s (trs ! k) = Some v"
  using assms
proof (induction trs arbitrary: i vs)
  case Nil
  then show ?case by simp
next
  case (Cons tr trs)
  from Cons.prems(1) obtain v0 vs' where
    v0: "applyTransform s tr = Some v0"
    and rec: "Normalize_variants s trs (i + 1) = Some vs'"
    and vs: "vs = (v0, i) # vs'"
    by (auto split: option.splits)
  show ?case
  proof (cases "(v, u) = (v0, i)")
    case True
    with v0 have "0 < length (tr # trs) \<and> u = i + int 0 \<and> applyTransform s ((tr # trs) ! 0) = Some v"
      by simp
    then show ?thesis by blast
  next
    case False
    with Cons.prems(2) vs have "(v, u) \<in> set vs'" by auto
    from Cons.IH [OF rec this] obtain k where
      "k < length trs" "u = i + 1 + int k" "applyTransform s (trs ! k) = Some v" by blast
    then have "Suc k < length (tr # trs) \<and> u = i + int (Suc k)
        \<and> applyTransform s ((tr # trs) ! Suc k) = Some v"
      by simp
    then show ?thesis by blast
  qed
qed

lemma variants_in_table:
  assumes "Normalize_variants s Transformations 0 = Some vs" "(v, u) \<in> set vs"
  shows "0 \<le> u \<and> u \<le> 7 \<and> (\<exists>tr. index Transformations u = Some tr \<and> applyTransform s tr = Some v)"
proof -
  from Normalize_variants_mem [OF assms] obtain k where
    k: "k < length Transformations" "u = int k" "applyTransform s (Transformations ! k) = Some v"
    by auto
  have "length Transformations = 8" by (simp add: Transformations_def)
  with k(1,2) have "0 \<le> u" "u \<le> 7" "index Transformations u = Some (Transformations ! k)"
    by (simp_all add: index_def)
  with k(3) show ?thesis by simp
qed

lemma Normalize_variants_sorted:
  assumes "Normalize_variants s trs i = Some vs"
  shows "sorted_wrt (\<lambda>a b. snd a < snd b) vs \<and> (\<forall>a\<in>set vs. i \<le> snd a)"
  using assms
proof (induction trs arbitrary: i vs)
  case Nil
  then show ?case by simp
next
  case (Cons tr trs)
  from Cons.prems obtain v0 vs' where
    rec: "Normalize_variants s trs (i + 1) = Some vs'" and vs: "vs = (v0, i) # vs'"
    by (auto split: option.splits)
  from Cons.IH [OF rec] have "sorted_wrt (\<lambda>a b. snd a < snd b) vs'" "\<forall>a\<in>set vs'. i + 1 \<le> snd a"
    by simp_all
  then show ?case unfolding vs by fastforce
qed

lemma variants_shape:
  assumes "length s = 9"
  shows "\<exists>x ys. Normalize_variants s Transformations 0 = Some (x # ys)
           \<and> sorted_wrt (\<lambda>a b. snd a < snd b) (x # ys)"
proof -
  from assms obtain a0 a1 a2 a3 a4 a5 a6 a7 a8 where
    s: "s = [a0, a1, a2, a3, a4, a5, a6, a7, a8]" by (rule length_9_obtain)
  have "\<exists>x ys. Normalize_variants s Transformations 0 = Some (x # ys)"
    unfolding s Normalize_variants_9 by (intro exI) (rule refl)
  then obtain x ys where v: "Normalize_variants s Transformations 0 = Some (x # ys)"
    by (elim exE)
  from Normalize_variants_sorted [OF v] v show ?thesis by blast
qed

lemma Normalize_first_min:
  assumes "length (state b) = 9"
  shows "\<exists>x ys. Normalize_variants (state b) Transformations 0 = Some (x # ys)
           \<and> sorted_wrt (\<lambda>a b. snd a < snd b) (x # ys)
           \<and> Normalize b = Some (foldl earlier_min x ys)"
proof -
  from variants_shape [OF assms] obtain x ys where
    v: "Normalize_variants (state b) Transformations 0 = Some (x # ys)"
    and s: "sorted_wrt (\<lambda>a b. snd a < snd b) (x # ys)" by blast
  from sort_Slice_head [of x ys] obtain rest where
    "sort_Slice (x # ys) (\<lambda>v w. fst v < fst w) = foldl earlier_min x ys # rest" by blast
  with v have "Normalize b = Some (foldl earlier_min x ys)"
    by (simp add: Normalize_def)
  with v s show ?thesis by blast
qed

lemma New_length:
  assumes "New s = Inr b"
  shows "state b = s \<and> length s = 9"
proof -
  let ?bad = "\<exists>c\<in>set s. c \<noteq> CHR ''X'' \<and> c \<noteq> CHR ''O'' \<and> c \<noteq> CHR ''_''"
  have len: "length s = 9"
  proof (rule ccontr)
    assume "length s \<noteq> 9"
    then have "New s = Inl ErrNot9Characters" unfolding New_def by (rule if_P)
    with assms show False by simp
  qed
  have ok: "\<not> ?bad"
  proof
    assume ?bad
    then have "New s = (if length s \<noteq> 9 then Inl ErrNot9Characters else Inl ErrBadCharacter)"
      unfolding New_def by (simp only: if_True)
    with assms show False by (simp split: if_splits)
  qed
  have "New s = (if length s \<noteq> 9 then Inl ErrNot9Characters else Inr \<lparr>state = s\<rparr>)"
    unfolding New_def using ok by (simp only: if_False)
  with len assms have "b = \<lparr>state = s\<rparr>" by (simp only: if_False refl simp_thms sum.inject)
  then show ?thesis using len by simp
qed

text \<open>
  C3. For every valid board, \<open>Normalize\<close> returns a pair \<open>(n, t)\<close> in which \<open>n\<close> is the
  image of the board under transformation \<open>t\<close> of the table, no image of the board
  under a transformation of the table is smaller than \<open>n\<close> in the order of strings,
  and no transformation with an index below \<open>t\<close> has the image \<open>n\<close>.
\<close>

theorem Normalize_least_earliest:
  assumes "New s = Inr b"
  shows "\<exists>n t. Normalize b = Some (n, t) \<and> 0 \<le> t \<and> t \<le> 7
           \<and> (\<exists>tr. index Transformations t = Some tr \<and> applyTransform (state b) tr = Some n)
           \<and> (\<forall>u tr v. index Transformations u = Some tr \<and> applyTransform (state b) tr = Some v
                 \<longrightarrow> n \<le> v \<and> (v = n \<longrightarrow> t \<le> u))"
proof -
  from New_length [OF assms] have len: "length (state b) = 9" by simp
  from Normalize_first_min [OF len] obtain x ys where
    vs: "Normalize_variants (state b) Transformations 0 = Some (x # ys)"
    and sorted: "sorted_wrt (\<lambda>a b. snd a < snd b) (x # ys)"
    and norm: "Normalize b = Some (foldl earlier_min x ys)" by blast
  obtain n t where nt: "foldl earlier_min x ys = (n, t)" by (cases "foldl earlier_min x ys")
  have "(n, t) \<in> set (x # ys)"
    using foldl_earlier_min_mem [of x ys] by (simp only: nt)
  from variants_in_table [OF vs this]
  have range: "0 \<le> t" "t \<le> 7"
    and image: "\<exists>tr. index Transformations t = Some tr \<and> applyTransform (state b) tr = Some n"
    by simp_all
  have least: "n \<le> v \<and> (v = n \<longrightarrow> t \<le> u)"
    if "index Transformations u = Some tr" "applyTransform (state b) tr = Some v" for u tr v
  proof -
    from variant_in_variants [OF vs len that] have "(v, u) \<in> set (x # ys)" .
    from foldl_earlier_min_first [OF sorted this] show ?thesis
      by (simp add: nt)
  qed
  show ?thesis
  proof (rule exI [of _ n], rule exI [of _ t], intro conjI)
    show "Normalize b = Some (n, t)" using norm nt by simp
    show "0 \<le> t" "t \<le> 7" by fact+
    show "\<exists>tr. index Transformations t = Some tr \<and> applyTransform (state b) tr = Some n"
      by fact
    show "\<forall>u tr v. index Transformations u = Some tr \<and> applyTransform (state b) tr = Some v
                 \<longrightarrow> n \<le> v \<and> (v = n \<longrightarrow> t \<le> u)"
      by (intro allI impI, elim conjE) (rule least; assumption)
  qed
qed

theorem Normalize_least_earliest_witness:
  "New ''_______X_'' = Inr \<lparr>state = ''_______X_''\<rparr>
   \<and> Normalize \<lparr>state = ''_______X_''\<rparr> = Some (''_X_______'', 2)
   \<and> index Transformations 5 = Some [6, 7, 8, 3, 4, 5, 0, 1, 2]
   \<and> applyTransform ''_______X_'' [6, 7, 8, 3, 4, 5, 0, 1, 2] = Some ''_X_______''
   \<and> ''_X_______'' \<le> ''_X_______'' \<and> (2::int) \<le> 5"
proof -
  have h: "New ''_______X_'' = Inr \<lparr>state = ''_______X_''\<rparr>"
    by code_simp
  have n: "Normalize \<lparr>state = ''_______X_''\<rparr> = Some (''_X_______'', 2)"
    by code_simp
  have i: "index Transformations 5 = Some [6, 7, 8, 3, 4, 5, 0, 1, 2]"
    by (rule Transformations_row)
  have a: "applyTransform ''_______X_'' [6, 7, 8, 3, 4, 5, 0, 1, 2] = Some ''_X_______''"
    by (simp add: applyTransform_rows)
  from Normalize_least_earliest [OF h] obtain n t where
    nt: "Normalize \<lparr>state = ''_______X_''\<rparr> = Some (n, t)"
    and least: "\<forall>u tr v. index Transformations u = Some tr
          \<and> applyTransform (state \<lparr>state = ''_______X_''\<rparr>) tr = Some v
        \<longrightarrow> n \<le> v \<and> (v = n \<longrightarrow> t \<le> u)"
    by blast
  from nt n have n_t: "n = ''_X_______''" "t = 2" by simp_all
  from i a have ia: "index Transformations 5 = Some [6, 7, 8, 3, 4, 5, 0, 1, 2]
      \<and> applyTransform (state \<lparr>state = ''_______X_''\<rparr>) [6, 7, 8, 3, 4, 5, 0, 1, 2]
          = Some ''_X_______''"
    by simp
  note least [rule_format, of 5 "[6, 7, 8, 3, 4, 5, 0, 1, 2]" "''_X_______''", OF ia]
  with n_t have "''_X_______'' \<le> ''_X_______'' \<and> (2::int) \<le> 5"
    by simp
  with h n i a show ?thesis by (intro conjI) simp_all
qed

section \<open>Symmetric boards have one canonical form\<close>

lemma Normalize_state_Min:
  assumes "length (state b) = 9"
  shows "\<exists>vs t. Normalize_variants (state b) Transformations 0 = Some vs
           \<and> Normalize b = Some (Min (fst ` set vs), t)"
proof -
  from Normalize_first_min [OF assms] obtain x ys where
    vs: "Normalize_variants (state b) Transformations 0 = Some (x # ys)"
    and norm: "Normalize b = Some (foldl earlier_min x ys)" by blast
  let ?m = "foldl earlier_min x ys"
  have "Min (fst ` set (x # ys)) = fst ?m"
  proof (rule Min_eqI)
    show "finite (fst ` set (x # ys))" by simp
    show "fst ?m \<le> k" if "k \<in> fst ` set (x # ys)" for k
    proof -
      from that obtain y where "y \<in> set (x # ys)" "k = fst y" by blast
      then show ?thesis using foldl_earlier_min_le [of y x ys] by simp
    qed
    show "fst ?m \<in> fst ` set (x # ys)"
      using foldl_earlier_min_mem [of x ys] by (rule imageI)
  qed
  with norm have "Normalize b = Some (Min (fst ` set (x # ys)), snd ?m)" by simp
  with vs show ?thesis by blast
qed

lemma variants_set:
  assumes "Normalize_variants [a0, a1, a2, a3, a4, a5, a6, a7, a8] Transformations 0 = Some xs"
  shows "fst ` set xs =
          {[a0, a1, a2, a3, a4, a5, a6, a7, a8],
           [a6, a3, a0, a7, a4, a1, a8, a5, a2],
           [a8, a7, a6, a5, a4, a3, a2, a1, a0],
           [a2, a5, a8, a1, a4, a7, a0, a3, a6],
           [a2, a1, a0, a5, a4, a3, a8, a7, a6],
           [a6, a7, a8, a3, a4, a5, a0, a1, a2],
           [a0, a3, a6, a1, a4, a7, a2, a5, a8],
           [a8, a5, a2, a7, a4, a1, a6, a3, a0]}"
  using assms unfolding Normalize_variants_9 by auto

lemma variants_of_image:
  fixes a0 a1 a2 a3 a4 a5 a6 a7 a8 :: char
  assumes "Normalize_variants [a0, a1, a2, a3, a4, a5, a6, a7, a8] Transformations 0 = Some xs"
    and "s' \<in> fst ` set xs"
    and "Normalize_variants s' Transformations 0 = Some ys"
  shows "fst ` set ys = fst ` set xs"
proof -
  define vs where "vs = {[a0, a1, a2, a3, a4, a5, a6, a7, a8],
           [a6, a3, a0, a7, a4, a1, a8, a5, a2],
           [a8, a7, a6, a5, a4, a3, a2, a1, a0],
           [a2, a5, a8, a1, a4, a7, a0, a3, a6],
           [a2, a1, a0, a5, a4, a3, a8, a7, a6],
           [a6, a7, a8, a3, a4, a5, a0, a1, a2],
           [a0, a3, a6, a1, a4, a7, a2, a5, a8],
           [a8, a5, a2, a7, a4, a1, a6, a3, a0]}"
  from assms(1) have xs: "fst ` set xs = vs"
    unfolding vs_def by (rule variants_set)
  from assms(2) have "s' \<in> vs" by (simp only: xs)
  then consider
      "s' = [a0, a1, a2, a3, a4, a5, a6, a7, a8]"
    | "s' = [a6, a3, a0, a7, a4, a1, a8, a5, a2]"
    | "s' = [a8, a7, a6, a5, a4, a3, a2, a1, a0]"
    | "s' = [a2, a5, a8, a1, a4, a7, a0, a3, a6]"
    | "s' = [a2, a1, a0, a5, a4, a3, a8, a7, a6]"
    | "s' = [a6, a7, a8, a3, a4, a5, a0, a1, a2]"
    | "s' = [a0, a3, a6, a1, a4, a7, a2, a5, a8]"
    | "s' = [a8, a5, a2, a7, a4, a1, a6, a3, a0]"
    unfolding vs_def by (elim insertE emptyE)
  then have "fst ` set ys = vs"
  proof cases
    case 1 from assms(3) [unfolded 1] show ?thesis
      unfolding vs_def by (simp add: variants_set insert_commute)
  next
    case 2 from assms(3) [unfolded 2] show ?thesis
      unfolding vs_def by (simp add: variants_set insert_commute)
  next
    case 3 from assms(3) [unfolded 3] show ?thesis
      unfolding vs_def by (simp add: variants_set insert_commute)
  next
    case 4 from assms(3) [unfolded 4] show ?thesis
      unfolding vs_def by (simp add: variants_set insert_commute)
  next
    case 5 from assms(3) [unfolded 5] show ?thesis
      unfolding vs_def by (simp add: variants_set insert_commute)
  next
    case 6 from assms(3) [unfolded 6] show ?thesis
      unfolding vs_def by (simp add: variants_set insert_commute)
  next
    case 7 from assms(3) [unfolded 7] show ?thesis
      unfolding vs_def by (simp add: variants_set insert_commute)
  next
    case 8 from assms(3) [unfolded 8] show ?thesis
      unfolding vs_def by (simp add: variants_set insert_commute)
  qed
  with xs show ?thesis by simp
qed

lemma image_in_variants:
  assumes "Normalize_variants [a0, a1, a2, a3, a4, a5, a6, a7, a8] Transformations 0 = Some xs"
    and "0 \<le> t" "t \<le> 7"
  shows "\<exists>tr s'. index Transformations t = Some tr
           \<and> applyTransform [a0, a1, a2, a3, a4, a5, a6, a7, a8] tr = Some s'
           \<and> s' \<in> fst ` set xs"
proof -
  from assms(2,3) consider "t = 0" | "t = 1" | "t = 2" | "t = 3" | "t = 4" | "t = 5" | "t = 6" | "t = 7"
    using int_range_cases_7 by blast
  then show ?thesis
    unfolding variants_set [OF assms(1)]
    by cases (simp_all add: Transformations_row applyTransform_rows)
qed

text \<open>
  C4. For every valid board and every transformation index \<open>t\<close> in 0..7,
  \<open>applyTransform\<close> returns an image of the board, and \<open>Normalize\<close> returns the same
  canonical state string for the image as for the board itself.
\<close>

theorem Normalize_symmetric:
  assumes "New s = Inr b" "0 \<le> t" "t \<le> 7"
  shows "\<exists>tr s' n t1 t2. index Transformations t = Some tr
           \<and> applyTransform (state b) tr = Some s'
           \<and> Normalize \<lparr>state = s'\<rparr> = Some (n, t1)
           \<and> Normalize b = Some (n, t2)"
proof -
  from New_length [OF assms(1)] have len: "length (state b) = 9" by simp
  then obtain a0 a1 a2 a3 a4 a5 a6 a7 a8 where
    s: "state b = [a0, a1, a2, a3, a4, a5, a6, a7, a8]" by (rule length_9_obtain)
  from Normalize_state_Min [OF len] obtain xs t2 where
    xs: "Normalize_variants (state b) Transformations 0 = Some xs"
    and nb: "Normalize b = Some (Min (fst ` set xs), t2)" by blast
  from xs have xs': "Normalize_variants [a0, a1, a2, a3, a4, a5, a6, a7, a8] Transformations 0 = Some xs"
    by (simp only: s)
  from image_in_variants [OF xs' assms(2,3)] obtain tr s' where
    tr: "index Transformations t = Some tr"
    and app: "applyTransform (state b) tr = Some s'"
    and mem: "s' \<in> fst ` set xs"
    unfolding s by blast
  from mem have "s' \<in> {[a0, a1, a2, a3, a4, a5, a6, a7, a8],
                     [a6, a3, a0, a7, a4, a1, a8, a5, a2],
                     [a8, a7, a6, a5, a4, a3, a2, a1, a0],
                     [a2, a5, a8, a1, a4, a7, a0, a3, a6],
                     [a2, a1, a0, a5, a4, a3, a8, a7, a6],
                     [a6, a7, a8, a3, a4, a5, a0, a1, a2],
                     [a0, a3, a6, a1, a4, a7, a2, a5, a8],
                     [a8, a5, a2, a7, a4, a1, a6, a3, a0]}"
    by (simp only: variants_set [OF xs'])
  then have "length s' = 9" by (elim insertE emptyE) simp_all
  then have "length (state \<lparr>state = s'\<rparr>) = 9" by simp
  from Normalize_state_Min [OF this] obtain ys t1 where
    ys: "Normalize_variants s' Transformations 0 = Some ys"
    and ni: "Normalize \<lparr>state = s'\<rparr> = Some (Min (fst ` set ys), t1)" by auto
  from variants_of_image [OF xs' mem ys] have "fst ` set ys = fst ` set xs" .
  with ni have "Normalize \<lparr>state = s'\<rparr> = Some (Min (fst ` set xs), t1)" by simp
  with tr app nb show ?thesis by blast
qed

theorem Normalize_symmetric_witness:
  "New ''XO_______'' = Inr \<lparr>state = ''XO_______''\<rparr>
   \<and> index Transformations 1 = Some [6, 3, 0, 7, 4, 1, 8, 5, 2]
   \<and> applyTransform ''XO_______'' [6, 3, 0, 7, 4, 1, 8, 5, 2] = Some ''__X__O___''
   \<and> map_option fst (Normalize \<lparr>state = ''__X__O___''\<rparr>)
        = map_option fst (Normalize \<lparr>state = ''XO_______''\<rparr>)"
proof -
  have h: "New ''XO_______'' = Inr \<lparr>state = ''XO_______''\<rparr>"
    by code_simp
  have i: "index Transformations 1 = Some [6, 3, 0, 7, 4, 1, 8, 5, 2]"
    by (rule Transformations_row)
  have a: "applyTransform ''XO_______'' [6, 3, 0, 7, 4, 1, 8, 5, 2] = Some ''__X__O___''"
    by (simp add: applyTransform_rows)
  from Normalize_symmetric [OF h, of 1] obtain tr s' n t1 t2 where
    "index Transformations 1 = Some tr"
    "applyTransform (state \<lparr>state = ''XO_______''\<rparr>) tr = Some s'"
    "Normalize \<lparr>state = s'\<rparr> = Some (n, t1)"
    "Normalize \<lparr>state = ''XO_______''\<rparr> = Some (n, t2)"
    by auto
  with i a have "map_option fst (Normalize \<lparr>state = ''__X__O___''\<rparr>)
        = map_option fst (Normalize \<lparr>state = ''XO_______''\<rparr>)"
    by simp
  with h i a show ?thesis by (intro conjI)
qed

lemma DrawBead_TimesUsed [simp]:
  "DrawBead (mb\<lparr>TimesUsed := k\<rparr>) order r = DrawBead mb order r"
  by (simp add: DrawBead_def)

lemma GetMove_eval:
  assumes "Normalize b = Some (n, t)"
    and "GetMove_moves (GetEmptyPositions b) t = Some ms"
    and "mb = (case Matchboxes m n of Some mb \<Rightarrow> mb | None \<Rightarrow> NewMatchbox n ms (InitialBeads m))"
    and "InverseTransformPosition (DrawBead mb order r) t = Some pos"
  shows "GetMove m b order r =
           Some (pos,
                 m\<lparr>Matchboxes := (Matchboxes m)(n \<mapsto> mb\<lparr>TimesUsed := TimesUsed mb + 1\<rparr>),
                   MoveHistory := MoveHistory m @
                     [\<lparr>BoardState = n, MoveRecord.Position = DrawBead mb order r, TransformIdx = t\<rparr>]\<rparr>)"
  using assms
  by (cases "Matchboxes m n") (simp_all add: GetMove_def GetOrCreateMatchbox_def Let_def)

lemma GetMove_history:
  assumes "Normalize b = Some (n, t)"
    and "GetMove_moves (GetEmptyPositions b) t = Some ms"
    and "Matchboxes m n = Some mb"
    and "InverseTransformPosition (DrawBead mb order r) t = Some pos"
  shows "\<exists>m'. GetMove m b order r = Some (pos, m')
           \<and> MoveHistory m' = MoveHistory m @
                 [\<lparr>BoardState = n, MoveRecord.Position = DrawBead mb order r, TransformIdx = t\<rparr>]"
  using GetMove_eval [OF assms(1,2) _ assms(4), of m] assms(3) by simp

lemma replicate_3: "replicate 3 x = [x, x, x]"
  by (simp add: numeral_3_eq_3)

lemma replicate_6: "replicate 6 x = [x, x, x, x, x, x]"
  by (simp add: eval_nat_numeral)

lemma DrawBead_nonempty:
  assumes "Beads m p = Some c"
  shows "DrawBead m order r =
     (let weightedPositions =
               concat (map (\<lambda>pos. case Beads m pos of
                                     Some count \<Rightarrow> replicate (nat (sint count)) pos
                                   | None \<Rightarrow> []) order)
         in if weightedPositions = [] then - 1
            else weightedPositions ! (r mod length weightedPositions))"
proof -
  from assms have "dom (Beads m) \<noteq> {}" by auto
  then show ?thesis by (simp add: DrawBead_def)
qed

lemma Normalize_NewEmpty: "Normalize NewEmpty = Some (EmptyBoard, 0)"
  by code_simp

lemma GetMove_moves_NewEmpty:
  "GetMove_moves (GetEmptyPositions NewEmpty) 0 = Some [0, 1, 2, 3, 4, 5, 6, 7, 8]"
  by code_simp

theorem repeated_wins_witness:
  "Matchboxes fresh_agent EmptyBoard = Some (NewMatchbox EmptyBoard [0, 1, 2, 3, 4, 5, 6, 7, 8] 3)
   \<and> Beads (NewMatchbox EmptyBoard [0, 1, 2, 3, 4, 5, 6, 7, 8] 3) 4 = Some 3
   \<and> credited_once EmptyBoard 4 fresh_agent
        [[(NewEmpty, [0, 1, 2, 3, 4, 5, 6, 7, 8], 12)], [(NewEmpty, [0, 1, 2, 3, 4, 5, 6, 7, 8], 12)]]
   \<and> (\<exists>m' mb'. win_episodes fresh_agent
          [[(NewEmpty, [0, 1, 2, 3, 4, 5, 6, 7, 8], 12)], [(NewEmpty, [0, 1, 2, 3, 4, 5, 6, 7, 8], 12)]]
            = Some m'
          \<and> Matchboxes m' EmptyBoard = Some mb' \<and> Beads mb' 4 = Some 9 \<and> sint (9 :: go_int) = 9)"
proof -
  let ?ord = "[0, 1, 2, 3, 4, 5, 6, 7, 8] :: int list"
  let ?mb0 = "NewMatchbox EmptyBoard ?ord 3"
  let ?eps = "[[(NewEmpty, ?ord, 12 :: nat)], [(NewEmpty, ?ord, 12)]]"
  have inv: "InverseTransformPosition 4 0 = Some 4" by code_simp
  have h1: "Matchboxes fresh_agent EmptyBoard = Some ?mb0"
    by (simp add: fresh_agent_def)
  have h2: "Beads ?mb0 4 = Some 3"
    by (simp add: Beads_NewMatchbox)
  have d0: "DrawBead ?mb0 ?ord 12 = 4"
    by (simp add: DrawBead_nonempty [OF h2] Beads_NewMatchbox replicate_3)
  have "Matchboxes (StartNewGame fresh_agent) EmptyBoard = Some ?mb0"
    using h1 by (simp add: StartNewGame_def)
  from GetMove_history [OF Normalize_NewEmpty GetMove_moves_NewEmpty this,
      where order = ?ord and r = 12 and pos = 4]
  obtain m1 where g1: "GetMove (StartNewGame fresh_agent) NewEmpty ?ord 12 = Some (4, m1)"
    and t1: "MoveHistory m1 = [\<lparr>BoardState = EmptyBoard, MoveRecord.Position = 4, TransformIdx = 0\<rparr>]"
    by (auto simp add: d0 inv StartNewGame_def)
  have c1: "credits EmptyBoard 4 (MoveHistory m1) = 1"
    by (simp add: t1 credits_def)
  from GetMove_frame(1) [OF g1] GetMove_frame(3) [OF g1, of EmptyBoard ?mb0] h1 obtain mb1 where
    w1: "WinReward m1 = 3" and mb1: "Matchboxes m1 EmptyBoard = Some mb1" "Beads mb1 = Beads ?mb0"
    by (auto simp add: StartNewGame_def fresh_agent_def NewMenace_def)
  from foldl_Learn_move_Some [where boxes = "Matchboxes m1" and s = EmptyBoard and mb = mb1
      and m = m1 and result = ResultWin and trace = "MoveHistory m1"] mb1(1)
  obtain mb2 where mb2: "Matchboxes (Learn m1 ResultWin) EmptyBoard = Some mb2"
    and beads2: "\<And>p. Beads mb2 p =
        map_option (bead_update m1 ResultWin ^^ credits EmptyBoard p (MoveHistory m1)) (Beads mb1 p)"
    by (auto simp add: Matchboxes_Learn)
  have b2: "Beads mb2 p = (if p \<in> set ?ord then Some (if p = 4 then 6 else 3) else None)" for p
    by (simp add: beads2 mb1(2) Beads_NewMatchbox t1 credits_def bead_update_def w1)
  have d2: "DrawBead mb2 ?ord 12 = 4"
    by (simp add: DrawBead_nonempty [of mb2 4 6] b2 replicate_3 replicate_6)
  have "Matchboxes (StartNewGame (Learn m1 ResultWin)) EmptyBoard = Some mb2"
    using mb2 by (simp add: StartNewGame_def)
  from GetMove_history [OF Normalize_NewEmpty GetMove_moves_NewEmpty this,
      where order = ?ord and r = 12 and pos = 4]
  obtain m3 where g3: "GetMove (StartNewGame (Learn m1 ResultWin)) NewEmpty ?ord 12 = Some (4, m3)"
    and t3: "MoveHistory m3 = [\<lparr>BoardState = EmptyBoard, MoveRecord.Position = 4, TransformIdx = 0\<rparr>]"
    by (auto simp add: d2 inv StartNewGame_def)
  have c3: "credits EmptyBoard 4 (MoveHistory m3) = 1"
    by (simp add: t3 credits_def)
  have h3: "credited_once EmptyBoard 4 fresh_agent ?eps"
    by (simp add: g1 c1 g3 c3)
  from repeated_wins [OF h1 h2 h3] obtain m' mb' where
    "win_episodes fresh_agent ?eps = Some m'" "Matchboxes m' EmptyBoard = Some mb'"
    "Beads mb' 4 = Some (3 + word_of_nat (length ?eps) * WinReward fresh_agent)"
    by blast
  moreover have "3 + word_of_nat (length ?eps) * WinReward fresh_agent = (9 :: go_int)"
    by (simp add: fresh_agent_def NewMenace_def)
  ultimately have "\<exists>m' mb'. win_episodes fresh_agent ?eps = Some m'
      \<and> Matchboxes m' EmptyBoard = Some mb' \<and> Beads mb' 4 = Some 9 \<and> sint (9 :: go_int) = 9"
    by simp
  with h1 h2 h3 show ?thesis by (intro conjI)
qed

section \<open>Determinism of a run\<close>

lemma InverseTransformPosition_None:
  "InverseTransformPosition q t = None \<longleftrightarrow> index Transformations t = None"
  by (simp add: InverseTransformPosition_def inverseTransform_def split: option.splits)

lemma opening_move:
  assumes "InverseTransformPosition
             (DrawBead (NewMatchbox EmptyBoard [0, 1, 2, 3, 4, 5, 6, 7, 8] 3) order r) 0 = Some pos"
  shows "GetMove (StartNewGame (NewMenace PlayerX)) NewEmpty order r =
           Some (pos,
             (NewMenace PlayerX)
               \<lparr>Matchboxes :=
                  [EmptyBoard \<mapsto> (NewMatchbox EmptyBoard [0, 1, 2, 3, 4, 5, 6, 7, 8] 3)\<lparr>TimesUsed := 1\<rparr>],
                MoveHistory :=
                  [\<lparr>BoardState = EmptyBoard,
                    MoveRecord.Position = DrawBead (NewMatchbox EmptyBoard [0, 1, 2, 3, 4, 5, 6, 7, 8] 3) order r,
                    TransformIdx = 0\<rparr>]\<rparr>)"
proof -
  let ?mb = "NewMatchbox EmptyBoard [0, 1, 2, 3, 4, 5, 6, 7, 8] 3"
  let ?m = "StartNewGame (NewMenace PlayerX)"
  have "?mb = (case Matchboxes ?m EmptyBoard of
                 Some mb \<Rightarrow> mb
               | None \<Rightarrow> NewMatchbox EmptyBoard [0, 1, 2, 3, 4, 5, 6, 7, 8] (InitialBeads ?m))"
    by (simp add: StartNewGame_def NewMenace_def)
  from GetMove_eval [OF Normalize_NewEmpty GetMove_moves_NewEmpty this assms]
  show ?thesis
    by (simp add: StartNewGame_def NewMenace_def NewMatchbox_def)
qed

lemma opening_beads:
  assumes "Beads mb = Beads (NewMatchbox EmptyBoard [0, 1, 2, 3, 4, 5, 6, 7, 8] 3)"
  shows "DrawBead mb [0, 1, 2, 3, 4, 5, 6, 7, 8] 0 = 0"
    and "DrawBead mb [8, 7, 6, 5, 4, 3, 2, 1, 0] 0 = 8"
proof -
  have "Beads mb 4 = Some 3" by (simp add: assms Beads_NewMatchbox)
  note d = DrawBead_nonempty [OF this]
  show "DrawBead mb [0, 1, 2, 3, 4, 5, 6, 7, 8] 0 = 0"
    by (simp add: d assms Beads_NewMatchbox replicate_3)
  show "DrawBead mb [8, 7, 6, 5, 4, 3, 2, 1, 0] 0 = 8"
    by (simp add: d assms Beads_NewMatchbox replicate_3)
qed

lemma InverseTransformPosition_identity:
  "InverseTransformPosition 0 0 = Some 0"
  "InverseTransformPosition 8 0 = Some 8"
  by code_simp+

text \<open>
  C2 does not hold of this code. The claim: two runs of the agent from the same
  matchboxes that consume the same sequence of random draws make the same moves and end
  with the same bead counts in every matchbox. \<open>DrawBead\<close> lays the beads out in the
  order in which \<^verbatim>\<open>range\<close> iterates the map of the matchbox, which Go leaves
  unspecified, and takes the bead at the index that \<open>rand.Intn\<close> returns: the random
  numbers do not fix the bead. Two runs of a fresh agent that make the opening move and
  win, both with the random number 0, the first iterating the nine keys from 0 to 8, the
  second from 8 to 0: the first plays 0 and ends with 6 beads for move 0, the second
  plays 8 and ends with 3 beads for move 0.
\<close>

theorem run_differs_for_equal_random_numbers:
  "map_option fst (run (NewMenace PlayerX)
      [CallStartNewGame, CallGetMove NewEmpty [0, 1, 2, 3, 4, 5, 6, 7, 8] 0, CallLearn ResultWin])
     = Some [0]
   \<and> map_option fst (run (NewMenace PlayerX)
      [CallStartNewGame, CallGetMove NewEmpty [8, 7, 6, 5, 4, 3, 2, 1, 0] 0, CallLearn ResultWin])
     = Some [8]
   \<and> final_count (run (NewMenace PlayerX)
      [CallStartNewGame, CallGetMove NewEmpty [0, 1, 2, 3, 4, 5, 6, 7, 8] 0, CallLearn ResultWin])
      EmptyBoard 0 = Some 6
   \<and> final_count (run (NewMenace PlayerX)
      [CallStartNewGame, CallGetMove NewEmpty [8, 7, 6, 5, 4, 3, 2, 1, 0] 0, CallLearn ResultWin])
      EmptyBoard 0 = Some 3"
proof -
  have w: "WinReward (NewMenace PlayerX) = 3" by (simp add: NewMenace_def)
  show ?thesis
    by (simp add: opening_move opening_beads InverseTransformPosition_identity final_count_def
          Matchboxes_Learn Learn_move_def AddBeads_def w Beads_NewMatchbox)
qed

section \<open>Requests for one session\<close>

lemma advance_Arrived:
  "advance h gameID (Arrived body, order, r) =
     (case handler_MakeMove_admit h gameID body of
        None \<Rightarrow> None
      | Some (Inl resp) \<Rightarrow> Some ((Answered resp, order, r), h)
      | Some (Inr position) \<Rightarrow> Some ((Admitted position, order, r), h))"
  by (simp add: advance_def)

lemma advance_Admitted:
  "advance h gameID (Admitted position, order, r) =
     (case handler_MakeMove_act h gameID position order r of
        None \<Rightarrow> None
      | Some (resp, h) \<Rightarrow> Some ((Answered resp, order, r), h))"
  by (simp add: advance_def)

lemma advance_Answered:
  "advance h gameID (Answered resp, order, r) = Some ((Answered resp, order, r), h)"
  by (simp add: advance_def)

text \<open>
  One request alone, advanced twice, is served as \<open>handler_MakeMove\<close> serves it.
\<close>

lemma schedule_one_request:
  "schedule h gameID [(Arrived body, order, r)] [0, 0] =
     map_option (\<lambda>(resp, h). ([(Answered resp, order, r)], h))
       (handler_MakeMove h gameID body order r)"
proof (cases "handler_MakeMove_admit h gameID body")
  case None
  then show ?thesis by (simp add: advance_Arrived handler_MakeMove_def)
next
  case (Some a)
  show ?thesis
  proof (cases a)
    case (Inl resp)
    with Some show ?thesis
      by (simp add: advance_Arrived advance_Answered handler_MakeMove_def)
  next
    case (Inr position)
    with Some show ?thesis
      by (cases "handler_MakeMove_act h gameID position order r")
         (auto simp add: advance_Arrived advance_Admitted handler_MakeMove_def)
  qed
qed

text \<open>
  The parts of the handler on a session that is open, on a session that the move of the
  opponent ends, and on a session that is finished.
\<close>

lemma handler_MakeMove_admit_open:
  assumes "games h gameID = Some g" "IsOver g = Some False" "IsOpponentTurn g = Some True"
    and "GetValidMoves g = Some validMoves" "position \<in> set validMoves"
    and "0 \<le> position" "position \<le> 8"
  shows "handler_MakeMove_admit h gameID (Some position) = Some (Inr position)"
  using assms by (simp add: handler_MakeMove_admit_def GetGame_def)

lemma handler_MakeMove_admit_finished:
  assumes "games h gameID = Some g" "IsOver g = Some True"
  shows "handler_MakeMove_admit h gameID body = Some (Inl (BadRequest GameAlreadyOver))"
  using assms by (simp add: handler_MakeMove_admit_def GetGame_def)

lemma OpponentMove_finished:
  "IsOver g = Some True \<Longrightarrow> OpponentMove g position = Some (None, g)"
  by (simp add: OpponentMove_def)

lemma MenaceMove_finished:
  "IsOver g = Some True \<Longrightarrow> MenaceMove g m order r = Some ((- 1, None), g, m)"
  by (simp add: MenaceMove_def)

lemma handler_MakeMove_act_finishing:
  assumes "games h gameID = Some g" "OpponentMove g position = Some (None, g')"
    and "IsOver g' = Some True" "Game_GetResult g' = Some result"
  shows "handler_MakeMove_act h gameID position order r =
           Some (OK (state (Board g')) None True,
                 h\<lparr>games := (games h)(gameID \<mapsto> g'), menace := Learn (menace h) result\<rparr>)"
  using assms
  by (simp add: handler_MakeMove_act_def handler_MakeMove_respond_def
        handler_MakeMove_finish_def FinishGame_def)

lemma handler_MakeMove_act_finished:
  assumes "games h gameID = Some g" "IsOver g = Some True" "Game_GetResult g = Some result"
  shows "handler_MakeMove_act h gameID position order r =
           Some (OK (state (Board g)) None True, h\<lparr>menace := Learn (menace h) result\<rparr>)"
proof -
  from assms(1) have "(games h)(gameID \<mapsto> g) = games h" by (rule map_upd_triv)
  with handler_MakeMove_act_finishing [OF assms(1) OpponentMove_finished [OF assms(2)] assms(2,3)]
  show ?thesis by simp
qed

lemma handler_MakeMove_finished:
  assumes "games h gameID = Some g" "IsOver g = Some True"
  shows "handler_MakeMove h gameID body order r = Some (BadRequest GameAlreadyOver, h)"
  by (simp add: handler_MakeMove_def handler_MakeMove_admit_finished [OF assms])

lemma MenaceMove_eval:
  assumes "IsOver g = Some False" "IsMenaceTurn g = Some True"
    and "GetMove m (Board g) order r = Some (position, m')"
    and "MakeMove (Board g) position (MenacePlayer g) = Some (Inr newBoard)"
    and "apply_move g newBoard (MenacePlayer g) position = Some g'"
  shows "MenaceMove g m order r = Some ((position, None), g', m')"
  using assms by (simp add: MenaceMove_def)

lemma handler_MakeMove_act_reply:
  assumes "games h gameID = Some g" "OpponentMove g position = Some (None, g1)"
    and "IsOver g1 = Some False" "IsMenaceTurn g1 = Some True"
    and "MenaceMove g1 (menace h) order r = Some ((pos, None), g2, m2)" "0 \<le> pos"
    and "IsOver g2 = Some False"
  shows "handler_MakeMove_act h gameID position order r =
           Some (OK (state (Board g2)) (Some pos) False,
                 h\<lparr>games := (games h)(gameID \<mapsto> g2), menace := m2\<rparr>)"
  using assms
  by (simp add: handler_MakeMove_act_def handler_MakeMove_respond_def
        handler_MakeMove_finish_def)

text \<open>
  \<open>Learn\<close> clears the trace, so a second \<open>Learn\<close> that follows it finds no entry and
  changes no bead; it counts a game all the same.
\<close>

lemma Learn_twice:
  "Matchboxes (Learn (Learn m result) result') = Matchboxes (Learn m result)"
  "GamesPlayed (Learn (Learn m result) result') = GamesPlayed m + 2"
  by (simp_all add: Matchboxes_Learn MoveHistory_Learn counters_Learn)

text \<open>
  The session \<open>opened\<close>: the board is \<open>XOO_X____\<close>, the opponent \<open>X\<close> is to move, and
  the agent has finished no game.
\<close>

lemma opened_session:
  obtains h where "opened = Some h"
    and "games h ''session'' =
           Some \<lparr>ID = ''session'', Board = \<lparr>state = ''XOO_X____''\<rparr>, MenacePlayer = PlayerO,
                 CurrentTurn = PlayerX,
                 Moves =
                   [\<lparr>Player = PlayerX, Position = 0, BoardAfter = ''X________''\<rparr>,
                    \<lparr>Player = PlayerO, Position = 1, BoardAfter = ''XO_______''\<rparr>,
                    \<lparr>Player = PlayerX, Position = 4, BoardAfter = ''XO__X____''\<rparr>,
                    \<lparr>Player = PlayerO, Position = 2, BoardAfter = ''XOO_X____''\<rparr>],
                 Result = ResultInProgress\<rparr>"
    and "statistics h = (0, 0, 0, 0)"
proof -
  let ?g0 = "\<lparr>ID = ''session'', Board = NewEmpty, MenacePlayer = PlayerO,
              CurrentTurn = PlayerX, Moves = [], Result = ResultInProgress\<rparr>"
  let ?g1 = "\<lparr>ID = ''session'', Board = \<lparr>state = ''X________''\<rparr>, MenacePlayer = PlayerO,
              CurrentTurn = PlayerO,
              Moves = [\<lparr>Player = PlayerX, Position = 0, BoardAfter = ''X________''\<rparr>],
              Result = ResultInProgress\<rparr>"
  let ?g2 = "\<lparr>ID = ''session'', Board = \<lparr>state = ''XO_______''\<rparr>, MenacePlayer = PlayerO,
              CurrentTurn = PlayerX,
              Moves = [\<lparr>Player = PlayerX, Position = 0, BoardAfter = ''X________''\<rparr>,
                       \<lparr>Player = PlayerO, Position = 1, BoardAfter = ''XO_______''\<rparr>],
              Result = ResultInProgress\<rparr>"
  let ?g3 = "\<lparr>ID = ''session'', Board = \<lparr>state = ''XO__X____''\<rparr>, MenacePlayer = PlayerO,
              CurrentTurn = PlayerO,
              Moves = [\<lparr>Player = PlayerX, Position = 0, BoardAfter = ''X________''\<rparr>,
                       \<lparr>Player = PlayerO, Position = 1, BoardAfter = ''XO_______''\<rparr>,
                       \<lparr>Player = PlayerX, Position = 4, BoardAfter = ''XO__X____''\<rparr>],
              Result = ResultInProgress\<rparr>"
  let ?g4 = "\<lparr>ID = ''session'', Board = \<lparr>state = ''XOO_X____''\<rparr>, MenacePlayer = PlayerO,
              CurrentTurn = PlayerX,
              Moves = [\<lparr>Player = PlayerX, Position = 0, BoardAfter = ''X________''\<rparr>,
                       \<lparr>Player = PlayerO, Position = 1, BoardAfter = ''XO_______''\<rparr>,
                       \<lparr>Player = PlayerX, Position = 4, BoardAfter = ''XO__X____''\<rparr>,
                       \<lparr>Player = PlayerO, Position = 2, BoardAfter = ''XOO_X____''\<rparr>],
              Result = ResultInProgress\<rparr>"
  let ?ma = "StartNewGame (NewMenace PlayerX)"
  let ?h1 = "\<lparr>games = [''session'' \<mapsto> ?g0], menace = ?ma\<rparr>"
  have new: "handler_NewGame NewHandler False ''session'' [] 0 = Some (None, ?h1)"
    by (simp add: handler_NewGame_def CreateGame_def NewGame_def NewHandler_def
          NewGameManager_def)
  \<comment> \<open>the opponent takes 0, the agent answers 1\<close>
  have admit1: "handler_MakeMove_admit ?h1 ''session'' (Some 0) = Some (Inr 0)"
  proof (rule handler_MakeMove_admit_open [where g = ?g0])
    show "IsOver ?g0 = Some False" by code_simp
    show "IsOpponentTurn ?g0 = Some True" by code_simp
    show "GetValidMoves ?g0 = Some [0, 1, 2, 3, 4, 5, 6, 7, 8]" by code_simp
  qed simp_all
  let ?box1 = "NewMatchbox ''X________'' [1, 2, 3, 4, 5, 6, 7, 8] 3"
  define mb where
    "mb = ?ma\<lparr>Matchboxes := (Matchboxes ?ma)(''X________'' \<mapsto> ?box1\<lparr>TimesUsed := TimesUsed ?box1 + 1\<rparr>),
               MoveHistory := MoveHistory ?ma @
                 [\<lparr>BoardState = ''X________'',
                   MoveRecord.Position = DrawBead ?box1 [1, 2, 3, 4, 5, 6, 7, 8] 0,
                   TransformIdx = 0\<rparr>]\<rparr>"
  have draw1: "DrawBead ?box1 [1, 2, 3, 4, 5, 6, 7, 8] 0 = 1"
  proof -
    have "Beads ?box1 1 = Some 3" by (simp add: Beads_NewMatchbox)
    note d = DrawBead_nonempty [OF this]
    show ?thesis by (simp add: d Beads_NewMatchbox replicate_3)
  qed
  have get1: "GetMove ?ma (Board ?g1) [1, 2, 3, 4, 5, 6, 7, 8] 0 = Some (1, mb)"
    unfolding mb_def
  proof (rule GetMove_eval)
    show "Normalize (Board ?g1) = Some (''X________'', 0)" by code_simp
    show "GetMove_moves (GetEmptyPositions (Board ?g1)) 0 = Some [1, 2, 3, 4, 5, 6, 7, 8]"
      by code_simp
    show "?box1 = (case Matchboxes ?ma ''X________'' of
                     Some mb \<Rightarrow> mb
                   | None \<Rightarrow> NewMatchbox ''X________'' [1, 2, 3, 4, 5, 6, 7, 8] (InitialBeads ?ma))"
      by (simp add: StartNewGame_def NewMenace_def)
    have "InverseTransformPosition 1 0 = Some 1" by code_simp
    then show "InverseTransformPosition (DrawBead ?box1 [1, 2, 3, 4, 5, 6, 7, 8] 0) 0 = Some 1"
      by (simp only: draw1)
  qed
  have move1: "MenaceMove ?g1 ?ma [1, 2, 3, 4, 5, 6, 7, 8] 0 = Some ((1, None), ?g2, mb)"
  proof (rule MenaceMove_eval [OF _ _ get1])
    show "IsOver ?g1 = Some False" by code_simp
    show "IsMenaceTurn ?g1 = Some True" by code_simp
    show "MakeMove (Board ?g1) 1 (MenacePlayer ?g1) = Some (Inr \<lparr>state = ''XO_______''\<rparr>)"
      by code_simp
    show "apply_move ?g1 \<lparr>state = ''XO_______''\<rparr> (MenacePlayer ?g1) 1 = Some ?g2"
      by code_simp
  qed
  let ?h2 = "\<lparr>games = [''session'' \<mapsto> ?g2], menace = mb\<rparr>"
  have act1: "handler_MakeMove_act ?h1 ''session'' 0 [1, 2, 3, 4, 5, 6, 7, 8] 0 =
                Some (OK ''XO_______'' (Some 1) False, ?h2)"
  proof -
    have a: "games ?h1 ''session'' = Some ?g0" by simp
    have b: "OpponentMove ?g0 0 = Some (None, ?g1)" by code_simp
    have c: "IsOver ?g1 = Some False" by code_simp
    have d: "IsMenaceTurn ?g1 = Some True" by code_simp
    have e: "MenaceMove ?g1 (menace ?h1) [1, 2, 3, 4, 5, 6, 7, 8] 0 = Some ((1, None), ?g2, mb)"
      using move1 by simp
    have f: "IsOver ?g2 = Some False" by code_simp
    from handler_MakeMove_act_reply [OF a b c d e _ f] show ?thesis by simp
  qed
  have req1: "handler_MakeMove ?h1 ''session'' (Some 0) [1, 2, 3, 4, 5, 6, 7, 8] 0 =
                Some (OK ''XO_______'' (Some 1) False, ?h2)"
    by (simp only: handler_MakeMove_def admit1 act1 option.case sum.case)
  \<comment> \<open>the opponent takes 4, the agent answers 2\<close>
  have admit2: "handler_MakeMove_admit ?h2 ''session'' (Some 4) = Some (Inr 4)"
  proof (rule handler_MakeMove_admit_open [where g = ?g2])
    show "IsOver ?g2 = Some False" by code_simp
    show "IsOpponentTurn ?g2 = Some True" by code_simp
    show "GetValidMoves ?g2 = Some [2, 3, 4, 5, 6, 7, 8]" by code_simp
  qed simp_all
  let ?box2 = "NewMatchbox ''XO__X____'' [2, 3, 5, 6, 7, 8] 3"
  define mc where
    "mc = mb\<lparr>Matchboxes := (Matchboxes mb)(''XO__X____'' \<mapsto> ?box2\<lparr>TimesUsed := TimesUsed ?box2 + 1\<rparr>),
              MoveHistory := MoveHistory mb @
                [\<lparr>BoardState = ''XO__X____'',
                  MoveRecord.Position = DrawBead ?box2 [2, 3, 5, 6, 7, 8] 0,
                  TransformIdx = 0\<rparr>]\<rparr>"
  have draw2: "DrawBead ?box2 [2, 3, 5, 6, 7, 8] 0 = 2"
  proof -
    have "Beads ?box2 2 = Some 3" by (simp add: Beads_NewMatchbox)
    note d = DrawBead_nonempty [OF this]
    show ?thesis by (simp add: d Beads_NewMatchbox replicate_3)
  qed
  have get2: "GetMove mb (Board ?g3) [2, 3, 5, 6, 7, 8] 0 = Some (2, mc)"
    unfolding mc_def
  proof (rule GetMove_eval)
    show "Normalize (Board ?g3) = Some (''XO__X____'', 0)" by code_simp
    show "GetMove_moves (GetEmptyPositions (Board ?g3)) 0 = Some [2, 3, 5, 6, 7, 8]"
      by code_simp
    show "?box2 = (case Matchboxes mb ''XO__X____'' of
                     Some mb \<Rightarrow> mb
                   | None \<Rightarrow> NewMatchbox ''XO__X____'' [2, 3, 5, 6, 7, 8] (InitialBeads mb))"
      by (simp add: mb_def StartNewGame_def NewMenace_def)
    have "InverseTransformPosition 2 0 = Some 2" by code_simp
    then show "InverseTransformPosition (DrawBead ?box2 [2, 3, 5, 6, 7, 8] 0) 0 = Some 2"
      by (simp only: draw2)
  qed
  have move2: "MenaceMove ?g3 mb [2, 3, 5, 6, 7, 8] 0 = Some ((2, None), ?g4, mc)"
  proof (rule MenaceMove_eval [OF _ _ get2])
    show "IsOver ?g3 = Some False" by code_simp
    show "IsMenaceTurn ?g3 = Some True" by code_simp
    show "MakeMove (Board ?g3) 2 (MenacePlayer ?g3) = Some (Inr \<lparr>state = ''XOO_X____''\<rparr>)"
      by code_simp
    show "apply_move ?g3 \<lparr>state = ''XOO_X____''\<rparr> (MenacePlayer ?g3) 2 = Some ?g4"
      by code_simp
  qed
  let ?h3 = "\<lparr>games = [''session'' \<mapsto> ?g4], menace = mc\<rparr>"
  have act2: "handler_MakeMove_act ?h2 ''session'' 4 [2, 3, 5, 6, 7, 8] 0 =
                Some (OK ''XOO_X____'' (Some 2) False, ?h3)"
  proof -
    have a: "games ?h2 ''session'' = Some ?g2" by simp
    have b: "OpponentMove ?g2 4 = Some (None, ?g3)" by code_simp
    have c: "IsOver ?g3 = Some False" by code_simp
    have d: "IsMenaceTurn ?g3 = Some True" by code_simp
    have e: "MenaceMove ?g3 (menace ?h2) [2, 3, 5, 6, 7, 8] 0 = Some ((2, None), ?g4, mc)"
      using move2 by simp
    have f: "IsOver ?g4 = Some False" by code_simp
    from handler_MakeMove_act_reply [OF a b c d e _ f] show ?thesis by simp
  qed
  have req2: "handler_MakeMove ?h2 ''session'' (Some 4) [2, 3, 5, 6, 7, 8] 0 =
                Some (OK ''XOO_X____'' (Some 2) False, ?h3)"
    by (simp only: handler_MakeMove_def admit2 act2 option.case sum.case)
  have opened: "opened = Some ?h3"
    by (simp only: opened_def new req1 req2 option.case prod.case)
  have stats: "statistics ?h3 = (0, 0, 0, 0)"
    by (simp add: statistics_def mc_def mb_def StartNewGame_def NewMenace_def)
  show ?thesis
    by (rule that [OF opened _ stats]) simp
qed

text \<open>
  C7 does not hold of this code. The claim: on a finished session every further move
  operation fails with an error, and \<open>Learn\<close> runs exactly once per session, with no
  second increment of the statistics and no second set of bead updates. Two requests
  reach the server for the session \<open>opened\<close>, the first with the move that ends the
  game. Served one after the other, the first is answered 200 with the game over and
  the second 400 "Game is already over"; the agent has counted one game and one loss.
  Served at the same time, both pass the checks while the session is open; the first
  makes its move and calls \<open>FinishGame\<close>; the second then calls \<open>OpponentMove\<close> on the
  finished session, which returns no error, and calls \<open>FinishGame\<close> again: both are
  answered 200, and the agent has counted two games and two losses for the one session.
  The bead counts are the same in both cases, since \<open>Learn\<close> has cleared the trace. On
  the finished session \<open>OpponentMove\<close> and \<open>MenaceMove\<close> change nothing and return no
  error (\<open>MenaceMove\<close> returns position \<open>-1\<close>).
\<close>

theorem one_session_learned_twice:
  "map_option (\<lambda>(requests, h). (map fst requests, statistics h)) (two_requests [])
     = Some ([Arrived (Some 8), Arrived (Some 3)], 0, 0, 0, 0)
   \<and> map_option (\<lambda>(requests, h). (map fst requests, statistics h)) (two_requests [0, 0, 1, 1])
     = Some ([Answered (OK ''XOO_X___X'' None True), Answered (BadRequest GameAlreadyOver)],
             1, 0, 1, 0)
   \<and> map_option (\<lambda>(requests, h). (map fst requests, statistics h)) (two_requests [0, 1, 0, 1])
     = Some ([Answered (OK ''XOO_X___X'' None True), Answered (OK ''XOO_X___X'' None True)],
             2, 0, 2, 0)
   \<and> map_option (\<lambda>(requests, h). Matchboxes (menace h)) (two_requests [0, 1, 0, 1])
     = map_option (\<lambda>(requests, h). Matchboxes (menace h)) (two_requests [0, 0, 1, 1])
   \<and> (case two_requests [0, 0] of
         None \<Rightarrow> False
       | Some (requests, h) \<Rightarrow>
           (case games h ''session'' of
              None \<Rightarrow> False
            | Some g \<Rightarrow>
                IsOver g = Some True
                \<and> OpponentMove g 3 = Some (None, g)
                \<and> MenaceMove g (menace h) [] 0 = Some ((- 1, None), g, menace h)))"
proof -
  let ?g4 = "\<lparr>ID = ''session'', Board = \<lparr>state = ''XOO_X____''\<rparr>, MenacePlayer = PlayerO,
              CurrentTurn = PlayerX,
              Moves = [\<lparr>Player = PlayerX, Position = 0, BoardAfter = ''X________''\<rparr>,
                       \<lparr>Player = PlayerO, Position = 1, BoardAfter = ''XO_______''\<rparr>,
                       \<lparr>Player = PlayerX, Position = 4, BoardAfter = ''XO__X____''\<rparr>,
                       \<lparr>Player = PlayerO, Position = 2, BoardAfter = ''XOO_X____''\<rparr>],
              Result = ResultInProgress\<rparr>"
  let ?g5 = "\<lparr>ID = ''session'', Board = \<lparr>state = ''XOO_X___X''\<rparr>, MenacePlayer = PlayerO,
              CurrentTurn = PlayerO,
              Moves = [\<lparr>Player = PlayerX, Position = 0, BoardAfter = ''X________''\<rparr>,
                       \<lparr>Player = PlayerO, Position = 1, BoardAfter = ''XO_______''\<rparr>,
                       \<lparr>Player = PlayerX, Position = 4, BoardAfter = ''XO__X____''\<rparr>,
                       \<lparr>Player = PlayerO, Position = 2, BoardAfter = ''XOO_X____''\<rparr>,
                       \<lparr>Player = PlayerX, Position = 8, BoardAfter = ''XOO_X___X''\<rparr>],
              Result = ResultLoss\<rparr>"
  obtain h where opened: "opened = Some h" and g4: "games h ''session'' = Some ?g4"
    and stats: "statistics h = (0, 0, 0, 0)"
    by (rule opened_session)
  define hA where "hA = h\<lparr>games := (games h)(''session'' \<mapsto> ?g5), menace := Learn (menace h) ResultLoss\<rparr>"
  define hB where "hB = hA\<lparr>menace := Learn (menace hA) ResultLoss\<rparr>"
  have g5: "games hA ''session'' = Some ?g5" "games hB ''session'' = Some ?g5"
    by (simp_all add: hA_def hB_def)
  have open4: "IsOver ?g4 = Some False" by code_simp
  have turn4: "IsOpponentTurn ?g4 = Some True" by code_simp
  have valid4: "GetValidMoves ?g4 = Some [3, 5, 6, 7, 8]" by code_simp
  have move8: "OpponentMove ?g4 8 = Some (None, ?g5)" by code_simp
  have over5: "IsOver ?g5 = Some True" by code_simp
  have result5: "Game_GetResult ?g5 = Some ResultLoss" by code_simp
  have admit8: "handler_MakeMove_admit h ''session'' (Some 8) = Some (Inr 8)"
    by (rule handler_MakeMove_admit_open [OF g4 open4 turn4 valid4]) simp_all
  have admit3: "handler_MakeMove_admit h ''session'' (Some 3) = Some (Inr 3)"
    by (rule handler_MakeMove_admit_open [OF g4 open4 turn4 valid4]) simp_all
  have act8: "handler_MakeMove_act h ''session'' 8 [] 0 = Some (OK ''XOO_X___X'' None True, hA)"
    using handler_MakeMove_act_finishing [OF g4 move8 over5 result5, of "[]" 0]
    by (simp add: hA_def)
  have late3: "handler_MakeMove_admit hA ''session'' (Some 3) = Some (Inl (BadRequest GameAlreadyOver))"
    by (rule handler_MakeMove_admit_finished [OF g5(1) over5])
  have act3: "handler_MakeMove_act hA ''session'' 3 [] 0 = Some (OK ''XOO_X___X'' None True, hB)"
    using handler_MakeMove_act_finished [OF g5(1) over5 result5, of 3 "[]" 0]
    by (simp add: hB_def)
  have none: "two_requests [] = Some ([(Arrived (Some 8), [], 0), (Arrived (Some 3), [], 0)], h)"
    by (simp add: two_requests_def opened)
  have first: "two_requests [0, 0] =
      Some ([(Answered (OK ''XOO_X___X'' None True), [], 0), (Arrived (Some 3), [], 0)], hA)"
    by (simp add: two_requests_def opened advance_Arrived advance_Admitted admit8 act8)
  have one_by_one: "two_requests [0, 0, 1, 1] =
      Some ([(Answered (OK ''XOO_X___X'' None True), [], 0),
             (Answered (BadRequest GameAlreadyOver), [], 0)], hA)"
    by (simp add: two_requests_def opened advance_Arrived advance_Admitted advance_Answered
          admit8 act8 late3)
  have together: "two_requests [0, 1, 0, 1] =
      Some ([(Answered (OK ''XOO_X___X'' None True), [], 0),
             (Answered (OK ''XOO_X___X'' None True), [], 0)], hB)"
    by (simp add: two_requests_def opened advance_Arrived advance_Admitted advance_Answered
          admit8 admit3 act8 act3)
  from stats have statsA: "statistics hA = (1, 0, 1, 0)"
    by (simp add: statistics_def hA_def counters_Learn)
  from statsA have statsB: "statistics hB = (2, 0, 2, 0)"
    by (simp add: statistics_def hB_def counters_Learn)
  have boxes: "Matchboxes (menace hB) = Matchboxes (menace hA)"
    by (simp add: hA_def hB_def Learn_twice)
  have c1: "map_option (\<lambda>(requests, h). (map fst requests, statistics h)) (two_requests [])
              = Some ([Arrived (Some 8), Arrived (Some 3)], 0, 0, 0, 0)"
    using none stats by simp
  have c2: "map_option (\<lambda>(requests, h). (map fst requests, statistics h)) (two_requests [0, 0, 1, 1])
     = Some ([Answered (OK ''XOO_X___X'' None True), Answered (BadRequest GameAlreadyOver)],
             1, 0, 1, 0)"
    using one_by_one statsA by simp
  have c3: "map_option (\<lambda>(requests, h). (map fst requests, statistics h)) (two_requests [0, 1, 0, 1])
     = Some ([Answered (OK ''XOO_X___X'' None True), Answered (OK ''XOO_X___X'' None True)],
             2, 0, 2, 0)"
    using together statsB by simp
  have c4: "map_option (\<lambda>(requests, h). Matchboxes (menace h)) (two_requests [0, 1, 0, 1])
     = map_option (\<lambda>(requests, h). Matchboxes (menace h)) (two_requests [0, 0, 1, 1])"
    using together one_by_one boxes by simp
  have c5: "(case two_requests [0, 0] of
         None \<Rightarrow> False
       | Some (requests, h) \<Rightarrow>
           (case games h ''session'' of
              None \<Rightarrow> False
            | Some g \<Rightarrow>
                IsOver g = Some True
                \<and> OpponentMove g 3 = Some (None, g)
                \<and> MenaceMove g (menace h) [] 0 = Some ((- 1, None), g, menace h)))"
    using over5 OpponentMove_finished [OF over5, of 3]
      MenaceMove_finished [OF over5, of "menace hA" "[]" 0]
    by (simp only: first g5 option.case prod.case)
  from c1 c2 c3 c4 c5 show ?thesis by (intro conjI)
qed

section \<open>The keys of a matchbox\<close>

lemma dom_Beads_NewMatchbox:
  "dom (Beads (NewMatchbox s moves init)) = set moves"
  by (auto simp add: Beads_NewMatchbox split: if_splits)

lemma InverseTransformPosition_total:
  assumes "index Transformations t = Some tr"
  shows "\<exists>pos. InverseTransformPosition q t = Some pos"
proof -
  from assms have "InverseTransformPosition q t \<noteq> None"
    by (simp add: InverseTransformPosition_None)
  then show ?thesis by auto
qed

lemma GetMove_matchbox_created:
  assumes "Normalize b = Some (n, t)"
    and "GetMove_moves (GetEmptyPositions b) t = Some ms"
    and "index Transformations t = Some tr"
    and "Matchboxes m n = None"
  shows "map_option (dom \<circ> Beads) (GetMove_matchbox m b order r) = Some (set ms)"
proof -
  let ?mb = "NewMatchbox n ms (InitialBeads m)"
  have mb: "?mb = (case Matchboxes m n of
                     Some mb \<Rightarrow> mb
                   | None \<Rightarrow> NewMatchbox n ms (InitialBeads m))"
    using assms(4) by simp
  from InverseTransformPosition_total [OF assms(3)] obtain pos where
    "InverseTransformPosition (DrawBead ?mb order r) t = Some pos" by blast
  from GetMove_eval [OF assms(1,2) mb this] assms(1) show ?thesis
    by (simp add: GetMove_matchbox_def dom_Beads_NewMatchbox)
qed

text \<open>
  C1 at the board \<open>___X_____\<close>, given to a fresh agent that plays \<open>O\<close>. The canonical
  state is \<open>_X_______\<close>, reached by transformation 1. Whatever the draw, the matchbox
  that \<open>GetMove\<close> creates for it has the keys 0, 1, 2, 3, 4, 5, 6 and 8: key 1 is the cell
  that holds \<open>X\<close> in the canonical state, and the empty cell 7 is no key. The empty
  positions of the canonical state are 0, 2, 3, 4, 5, 6, 7 and 8.
\<close>

theorem GetMove_keys_of_rotated_board:
  "New ''___X_____'' = Inr \<lparr>state = ''___X_____''\<rparr>
   \<and> Normalize \<lparr>state = ''___X_____''\<rparr> = Some (''_X_______'', 1)
   \<and> map_option (dom \<circ> Beads)
         (GetMove_matchbox (NewMenace PlayerO) \<lparr>state = ''___X_____''\<rparr> order r)
       = Some {0, 1, 2, 3, 4, 5, 6, 8}
   \<and> set (GetEmptyPositions \<lparr>state = ''_X_______''\<rparr>) = {0, 2, 3, 4, 5, 6, 7, 8}
   \<and> map_option (dom \<circ> Beads)
         (GetMove_matchbox (NewMenace PlayerO) \<lparr>state = ''___X_____''\<rparr> order r)
       \<noteq> Some (set (GetEmptyPositions \<lparr>state = ''_X_______''\<rparr>))"
proof -
  have new: "New ''___X_____'' = Inr \<lparr>state = ''___X_____''\<rparr>" by code_simp
  have n: "Normalize \<lparr>state = ''___X_____''\<rparr> = Some (''_X_______'', 1)" by code_simp
  have ms: "GetMove_moves (GetEmptyPositions \<lparr>state = ''___X_____''\<rparr>) 1
              = Some [6, 3, 0, 4, 1, 8, 5, 2]" by code_simp
  have none: "Matchboxes (NewMenace PlayerO) ''_X_______'' = None"
    by (simp add: NewMenace_def)
  from GetMove_matchbox_created [OF n ms Transformations_row(2) none, of order r]
  have keys: "map_option (dom \<circ> Beads)
         (GetMove_matchbox (NewMenace PlayerO) \<lparr>state = ''___X_____''\<rparr> order r)
       = Some {0, 1, 2, 3, 4, 5, 6, 8}"
    by (simp add: insert_commute)
  have empties: "set (GetEmptyPositions \<lparr>state = ''_X_______''\<rparr>) = {0, 2, 3, 4, 5, 6, 7, 8}"
    by (simp add: GetEmptyPositions_def)
  have "(7::int) \<notin> {0, 1, 2, 3, 4, 5, 6, 8}" by simp
  then have "{0, 1, 2, 3, 4, 5, 6, 8} \<noteq> {0, 2, 3, 4, 5, 6, 7, (8::int)}" by blast
  then have "map_option (dom \<circ> Beads)
         (GetMove_matchbox (NewMenace PlayerO) \<lparr>state = ''___X_____''\<rparr> order r)
       \<noteq> Some (set (GetEmptyPositions \<lparr>state = ''_X_______''\<rparr>))"
    unfolding keys empties by simp
  with new n keys empties show ?thesis by (intro conjI)
qed

text \<open>
  What follows from it. After that call the board \<open>_X_______\<close> itself, whose canonical
  state is the same under transformation 0, shares the matchbox: a draw of key 1 makes
  \<open>GetMove\<close> return position 1, which holds \<open>X\<close>, and \<open>MakeMove\<close> refuses it.
\<close>

lemma GetMove_returns_occupied_position:
  assumes "GetMove (NewMenace PlayerO) \<lparr>state = ''___X_____''\<rparr> [6, 3, 0, 4, 1, 8, 5, 2] 0
             = Some (pos, m)"
  shows "pos = 0
    \<and> map_option fst (GetMove m \<lparr>state = ''_X_______''\<rparr> [0, 1, 2, 3, 4, 5, 6, 8] 3) = Some 1
    \<and> MakeMove \<lparr>state = ''_X_______''\<rparr> 1 PlayerO = Some (Inl ErrOccupied)"
proof -
  let ?mb = "NewMatchbox ''_X_______'' [6, 3, 0, 4, 1, 8, 5, 2] 3"
  have n: "Normalize \<lparr>state = ''___X_____''\<rparr> = Some (''_X_______'', 1)" by code_simp
  have ms: "GetMove_moves (GetEmptyPositions \<lparr>state = ''___X_____''\<rparr>) 1
              = Some [6, 3, 0, 4, 1, 8, 5, 2]" by code_simp
  have mb: "?mb = (case Matchboxes (NewMenace PlayerO) ''_X_______'' of
                     Some mb \<Rightarrow> mb
                   | None \<Rightarrow> NewMatchbox ''_X_______'' [6, 3, 0, 4, 1, 8, 5, 2]
                               (InitialBeads (NewMenace PlayerO)))"
    by (simp add: NewMenace_def)
  have b: "Beads ?mb 6 = Some 3" by (simp add: Beads_NewMatchbox)
  have d: "DrawBead ?mb [6, 3, 0, 4, 1, 8, 5, 2] 0 = 6"
    by (simp add: DrawBead_nonempty [OF b] Beads_NewMatchbox replicate_3)
  have i: "InverseTransformPosition (DrawBead ?mb [6, 3, 0, 4, 1, 8, 5, 2] 0) 1 = Some 0"
    unfolding d by code_simp
  from GetMove_eval [OF n ms mb i] assms have pos: "pos = 0"
    and m: "m = (NewMenace PlayerO)
          \<lparr>Matchboxes := (Matchboxes (NewMenace PlayerO))
             (''_X_______'' \<mapsto> ?mb\<lparr>TimesUsed := TimesUsed ?mb + 1\<rparr>),
           MoveHistory := MoveHistory (NewMenace PlayerO) @
             [\<lparr>BoardState = ''_X_______'',
               MoveRecord.Position = DrawBead ?mb [6, 3, 0, 4, 1, 8, 5, 2] 0,
               TransformIdx = 1\<rparr>]\<rparr>"
    by simp_all
  let ?mb1 = "?mb\<lparr>TimesUsed := TimesUsed ?mb + 1\<rparr>"
  have n2: "Normalize \<lparr>state = ''_X_______''\<rparr> = Some (''_X_______'', 0)" by code_simp
  have ms2: "GetMove_moves (GetEmptyPositions \<lparr>state = ''_X_______''\<rparr>) 0
              = Some [0, 2, 3, 4, 5, 6, 7, 8]" by code_simp
  have box: "Matchboxes m ''_X_______'' = Some ?mb1" by (simp add: m)
  have b1: "Beads ?mb 1 = Some 3" by (simp add: Beads_NewMatchbox)
  have d2: "DrawBead ?mb1 [0, 1, 2, 3, 4, 5, 6, 8] 3 = 1"
    by (simp add: DrawBead_nonempty [OF b1] Beads_NewMatchbox replicate_3)
  have i2: "InverseTransformPosition (DrawBead ?mb1 [0, 1, 2, 3, 4, 5, 6, 8] 3) 0 = Some 1"
    unfolding d2 by code_simp
  from GetMove_history [OF n2 ms2 box i2]
  have "map_option fst (GetMove m \<lparr>state = ''_X_______''\<rparr> [0, 1, 2, 3, 4, 5, 6, 8] 3) = Some 1"
    by auto
  moreover have "MakeMove \<lparr>state = ''_X_______''\<rparr> 1 PlayerO = Some (Inl ErrOccupied)"
    by code_simp
  ultimately show ?thesis using pos by simp
qed

end
